theory Spec2Isabelle
  imports
    Complex_Main
    "HOL-Library.Word"
    "HOL-Library.Sublist"
    "HOL-Library.AList"
    "HOL-Library.Char_ord"
    "HOL-Library.List_Lexorder"
    "HOL-Library.Product_Lexorder"
begin

section \<open>Python values\<close>

text \<open>
  The values the service handles come out of \<^verbatim>\<open>json.load\<close>, \<^verbatim>\<open>csv.DictReader\<close>
  and \<^verbatim>\<open>r.json()\<close>: \<^verbatim>\<open>None\<close>, booleans, unbounded integers, floats, strings, lists
  and dicts with string keys. A float is kept as its IEEE-754 binary64 bit pattern.
  A dict is an association list in insertion order; a lookup reads the first binding
  of a key (a Python dict holds one binding per key).

  Strings are \<^typ>\<open>string\<close>; each \<^typ>\<open>char\<close> stands for one code point of the
  ASCII range, on which \<^verbatim>\<open>str.lower\<close> and \<^verbatim>\<open>str.strip\<close> are modelled exactly.
  Code points beyond ASCII are left alone by both functions of the model.
\<close>

datatype pyval =
    PNone
  | PBool bool
  | PInt int
  | PFloat "64 word"
  | PStr string
  | PList "pyval list"
  | PDict "(string \<times> pyval) list"

type_synonym pydict = "(string \<times> pyval) list"

text \<open>The exceptions that the modelled code raises, explicitly or from a built-in.\<close>

datatype pyerr =
    AttributeError
  | TypeError
  | ValueError
  | OSError
  | OverflowError
  | RuntimeError string

text \<open>Truth value testing (\<^verbatim>\<open>if x\<close>, \<^verbatim>\<open>x or y\<close>, \<^verbatim>\<open>not x\<close>).\<close>

fun truthy :: "pyval \<Rightarrow> bool" where
  "truthy PNone = False"
| "truthy (PBool b) = b"
| "truthy (PInt i) = (i \<noteq> 0)"
| "truthy (PFloat w) = (w \<noteq> 0 \<and> w \<noteq> 0x8000000000000000)"
| "truthy (PStr s) = (s \<noteq> [])"
| "truthy (PList xs) = (xs \<noteq> [])"
| "truthy (PDict kvs) = (kvs \<noteq> [])"

text \<open>\<^verbatim>\<open>x or d\<close>\<close>

definition py_or :: "pyval \<Rightarrow> pyval \<Rightarrow> pyval" where
  "py_or x d = (if truthy x then x else d)"

text \<open>\<^verbatim>\<open>d.get(k)\<close>: the value bound to the key, \<^verbatim>\<open>None\<close> when the key is absent.\<close>

definition dict_get :: "pydict \<Rightarrow> string \<Rightarrow> pyval" where
  "dict_get d k = (case map_of d k of None \<Rightarrow> PNone | Some v \<Rightarrow> v)"

text \<open>\<^verbatim>\<open>isinstance(v, dict)\<close>, with the dict it then is.\<close>

fun as_dict :: "pyval \<Rightarrow> pydict option" where
  "as_dict (PDict kvs) = Some kvs"
| "as_dict _ = None"

text \<open>\<^verbatim>\<open>sep.join(parts)\<close>\<close>

fun join :: "string \<Rightarrow> string list \<Rightarrow> string" where
  "join sep [] = []"
| "join sep [x] = x"
| "join sep (x # y # ys) = x @ sep @ join sep (y # ys)"

section \<open>Strings\<close>

text \<open>
  \<^verbatim>\<open>str.lower\<close>, \<^verbatim>\<open>str.strip\<close> (no argument) and the class \<^verbatim>\<open>\d\<close> on ASCII:
  \<^verbatim>\<open>A-Z\<close> map to \<^verbatim>\<open>a-z\<close>; the white space is \<^verbatim>\<open>\t \n \v \f \r\<close>, the four
  separators \<^verbatim>\<open>0x1c-0x1f\<close> and the blank.
\<close>

definition lower_char :: "char \<Rightarrow> char" where
  "lower_char c =
    (let n = (of_char c :: nat) in if 65 \<le> n \<and> n \<le> 90 then char_of (n + 32) else c)"

definition lower :: "string \<Rightarrow> string" where
  "lower s = map lower_char s"

definition is_space :: "char \<Rightarrow> bool" where
  "is_space c = (let n = (of_char c :: nat) in (9 \<le> n \<and> n \<le> 13) \<or> (28 \<le> n \<and> n \<le> 32))"

definition strip :: "string \<Rightarrow> string" where
  "strip s = rev (dropWhile is_space (rev (dropWhile is_space s)))"

definition is_digit :: "char \<Rightarrow> bool" where
  "is_digit c = (let n = (of_char c :: nat) in 48 \<le> n \<and> n \<le> 57)"

section \<open>Carrier eligibility\<close>

text \<open>
  \<^verbatim>\<open>' since ' + oos_d\<close>: concatenation of a string with a value that is a string,
  \<^verbatim>\<open>TypeError\<close> for any other value.
\<close>

fun str_concat :: "string \<Rightarrow> pyval \<Rightarrow> pyerr + string" where
  "str_concat s (PStr t) = Inr (s @ t)"
| "str_concat s _ = Inl TypeError"

text \<open>
  \<^verbatim>\<open>compute_verdict\<close> (main.py, lines 158-167). \<^verbatim>\<open>allow == "N"\<close> holds for the string
  \<^verbatim>\<open>"N"\<close> and for no other value. The f-string builds its fragment before the append,
  so a failing concatenation raises out of the function.
\<close>

definition compute_verdict :: "pydict \<Rightarrow> pyerr + (bool \<times> string)" where
  "compute_verdict carrier =
    (let allow = dict_get carrier ''allowToOperate'';
         oos = dict_get carrier ''outOfService'';
         oos_d = dict_get carrier ''outOfServiceDate'';
         (ok, reasons) = (True, []);
         (ok, reasons) =
           (if allow = PStr ''N'' then (False, reasons @ [''allowToOperate=N''])
            else (ok, reasons))
     in case (if oos = PStr ''Y''
              then (case (if truthy oos_d then str_concat '' since '' oos_d else Inr [])
                    of Inl e \<Rightarrow> Inl e
                     | Inr frag \<Rightarrow> Inr (False, reasons @ [''outOfService=Y'' @ frag]))
              else Inr (ok, reasons))
        of Inl e \<Rightarrow> Inl e
         | Inr (ok, reasons) \<Rightarrow>
             Inr (ok,
                  if ok then ''Active: allowed to operate and not out of service''
                  else (let j = join ''; '' reasons in if j \<noteq> [] then j else ''Not eligible'')))"

section \<open>Carrier lookup\<close>

text \<open>
  \<^verbatim>\<open>d.values()\<close>: the values in insertion order, one per key.
\<close>

definition dict_values :: "pydict \<Rightarrow> pyval list" where
  "dict_values d = map snd (AList.clearjunk d)"

text \<open>
  \<^verbatim>\<open>choose_carrier\<close> (main.py, lines 142-156). The two inner loops over the items of
  a list are the same code; \<open>scan_items\<close> is that loop, \<open>scan_values\<close> the loop over
  \<^verbatim>\<open>payload.values()\<close>. Each returns at its first hit.
\<close>

fun scan_items :: "pyval list \<Rightarrow> pydict option" where
  "scan_items [] = None"
| "scan_items (item # rest) =
    (case item of
       PDict d \<Rightarrow> (case dict_get d ''carrier'' of PDict c \<Rightarrow> Some c | _ \<Rightarrow> scan_items rest)
     | _ \<Rightarrow> scan_items rest)"

fun scan_values :: "pyval list \<Rightarrow> pydict option" where
  "scan_values [] = None"
| "scan_values (v # vs) =
    (case v of
       PList items \<Rightarrow> (case scan_items items of Some c \<Rightarrow> Some c | None \<Rightarrow> scan_values vs)
     | _ \<Rightarrow> scan_values vs)"

definition choose_carrier :: "pyval \<Rightarrow> pydict option" where
  "choose_carrier payload =
    (case payload of
       PDict d \<Rightarrow>
         (case dict_get d ''carrier'' of
            PDict c \<Rightarrow> Some c
          | _ \<Rightarrow> scan_values (dict_values d))
     | PList items \<Rightarrow> scan_items items
     | _ \<Rightarrow> None)"

text \<open>
  The extraction rule in the words of the specification: the candidates are the
  \<open>carrier\<close> object at the top level of a payload object, then the \<open>carrier\<close> objects
  of the dict elements of its list-valued fields, field by field; for a payload
  that is a list, the \<open>carrier\<close> objects of its dict elements. The first candidate wins.
\<close>

definition carrier_of :: "pyval \<Rightarrow> pydict option" where
  "carrier_of v = (case v of PDict d \<Rightarrow> as_dict (dict_get d ''carrier'') | _ \<Rightarrow> None)"

definition carriers_in_list :: "pyval \<Rightarrow> pydict list" where
  "carriers_in_list v = (case v of PList items \<Rightarrow> List.map_filter carrier_of items | _ \<Rightarrow> [])"

definition carrier_candidates :: "pyval \<Rightarrow> pydict list" where
  "carrier_candidates payload =
    (case payload of
       PDict d \<Rightarrow> List.map_filter carrier_of [payload] @ concat (map carriers_in_list (dict_values d))
     | PList items \<Rightarrow> carriers_in_list payload
     | _ \<Rightarrow> [])"

definition first_carrier :: "pyval \<Rightarrow> pydict option" where
  "first_carrier payload = (case carrier_candidates payload of [] \<Rightarrow> None | c # _ \<Rightarrow> Some c)"

text \<open>
  \<^verbatim>\<open>find_carrier\<close> (main.py, lines 171-189), up to the verdict. The upstream service
  is a function from the request URL path to the response: its status code and the
  value \<^verbatim>\<open>r.json()\<close> gives (\<open>None\<close> when the body is not JSON and the call raises).
  The outcome is an \<^verbatim>\<open>HTTPException\<close> with its status and detail, an exception that
  nothing catches, or the chosen carrier with its verdict; the construction of the
  response model \<^verbatim>\<open>CarrierVerdict\<close> from them (lines 190-197) is not part of the model.
\<close>

datatype failure = HTTPException nat pyval | Uncaught pyerr

record response =
  status_code :: int
  json :: "pyval option"

definition MC_RE_match :: "string \<Rightarrow> bool" where
  "MC_RE_match s = (4 \<le> length s \<and> length s \<le> 7 \<and> list_all is_digit s)"

definition find_carrier ::
  "string \<Rightarrow> (string \<Rightarrow> response) \<Rightarrow> string \<Rightarrow> failure + (pydict \<times> bool \<times> string)" where
  "find_carrier FMCSA_WEBKEY upstream mc =
    (if FMCSA_WEBKEY = [] then Inl (HTTPException 500 (PStr ''Server missing FMCSA_WEBKEY''))
     else let mc_digits = strip mc in
       if \<not> MC_RE_match mc_digits then Inl (HTTPException 400 (PStr ''Invalid MC number format''))
       else let r = upstream (''/carriers/docket-number/'' @ mc_digits) in
         if status_code r = 401
           then Inl (HTTPException 502 (PStr ''FMCSA authentication failed (webKey)''))
         else if status_code r = 404
           then Inl (HTTPException 404 (PStr ''Carrier not found for MC''))
         else if status_code r \<ge> 500 then Inl (HTTPException 502 (PStr ''FMCSA service error''))
         else (case json r of
                 None \<Rightarrow> Inl (Uncaught ValueError)
               | Some data \<Rightarrow>
                   (case (case choose_carrier data of
                            None \<Rightarrow> None
                          | Some c \<Rightarrow> if c \<noteq> [] then Some c else None)
                    of None \<Rightarrow>
                         Inl (HTTPException 404
                               (case data of
                                  PDict d \<Rightarrow> dict_get d ''content''
                                | _ \<Rightarrow> PStr ''Carrier not found or unrecognized response''))
                     | Some carrier \<Rightarrow>
                         (case compute_verdict carrier of
                            Inl e \<Rightarrow> Inl (Uncaught e)
                          | Inr (ok, reason) \<Rightarrow> Inr (carrier, ok, reason)))))"

section \<open>Record store\<close>

text \<open>
  What \<^verbatim>\<open>_load_file_rows\<close> asks of the world: the text of the file at a path
  (\<^verbatim>\<open>open\<close> and the read; an exception when the file is missing or unreadable),
  \<^verbatim>\<open>json.load\<close> on that text (an exception when it is not JSON) and
  \<^verbatim>\<open>list(csv.DictReader(f))\<close> on it (the rows as dicts, or an exception).
\<close>

record io_env =
  open_read :: "string \<Rightarrow> pyerr + string"
  json_load :: "string \<Rightarrow> pyerr + pyval"
  csv_DictReader :: "string \<Rightarrow> pyerr + pyval list"

text \<open>\<^verbatim>\<open>_load_file_rows\<close> (main.py, lines 61-72); \<^verbatim>\<open>s.endswith(t)\<close> is \<open>suffix t s\<close>.\<close>

definition load_file_rows :: "io_env \<Rightarrow> string \<Rightarrow> pyerr + pyval list" where
  "load_file_rows E path =
    (if suffix ''.json'' (lower path) then
       (case open_read E path of
          Inl e \<Rightarrow> Inl e
        | Inr f \<Rightarrow>
            (case json_load E f of
               Inl e \<Rightarrow> Inl e
             | Inr data \<Rightarrow>
                 (case data of
                    PList rows \<Rightarrow> Inr rows
                  | _ \<Rightarrow> Inl (RuntimeError ''loads.json must contain a JSON array''))))
     else if suffix ''.csv'' (lower path) then
       (case open_read E path of
          Inl e \<Rightarrow> Inl e
        | Inr f \<Rightarrow> csv_DictReader E f)
     else Inl (RuntimeError ''LOADS_PATH must be .json or .csv''))"

text \<open>The fallback of main.py, lines 78-109.\<close>

definition demo_loads :: "pyval list" where
  "demo_loads =
    [PDict [(''load_id'', PStr ''L-1001''),
            (''origin'', PStr ''Chicago, IL''),
            (''destination'', PStr ''Dallas, TX''),
            (''pickup_datetime'', PStr ''2025-09-08T08:00:00-05:00''),
            (''delivery_datetime'', PStr ''2025-09-09T16:00:00-05:00''),
            (''equipment_type'', PStr ''Dry Van''),
            (''loadboard_rate'', PInt 1450),
            (''notes'', PStr ''No pallet exchange''),
            (''weight'', PInt 30000),
            (''commodity_type'', PStr ''Paper''),
            (''num_of_pieces'', PInt 20),
            (''miles'', PInt 976),
            (''dimensions'', PStr ''48x102'')],
     PDict [(''load_id'', PStr ''L-1002''),
            (''origin'', PStr ''Atlanta, GA''),
            (''destination'', PStr ''Orlando, FL''),
            (''pickup_datetime'', PStr ''2025-09-08T07:00:00-05:00''),
            (''delivery_datetime'', PStr ''2025-09-08T17:00:00-05:00''),
            (''equipment_type'', PStr ''Reefer''),
            (''loadboard_rate'', PInt 900),
            (''notes'', PStr ''Keep at 36F''),
            (''weight'', PInt 25000),
            (''commodity_type'', PStr ''Produce''),
            (''num_of_pieces'', PInt 12),
            (''miles'', PInt 438),
            (''dimensions'', PStr ''53x102'')]]"

text \<open>
  The module-level initialisation of \<^verbatim>\<open>LOADS\<close> (main.py, lines 74-109):
  \<^verbatim>\<open>except Exception\<close> catches whatever the load raised.
\<close>

definition LOADS_init :: "io_env \<Rightarrow> string \<Rightarrow> pyval list" where
  "LOADS_init E LOADS_PATH =
    (case load_file_rows E LOADS_PATH of Inr rows \<Rightarrow> rows | Inl e \<Rightarrow> demo_loads)"

section \<open>Event logs and metrics\<close>

text \<open>
  The two pydantic models of main.py, lines 41-58. The offers log and the summaries
  log hold what \<^verbatim>\<open>log_offer\<close> and \<^verbatim>\<open>call_summary\<close> appended: \<^verbatim>\<open>body.dict()\<close>, a
  dict with every declared field, \<^verbatim>\<open>None\<close> for an optional field that was not given.
  An entry read back is the record of its fields. A float is its binary64 bit pattern.
\<close>

record OfferLog =
  call_id :: string
  load_id :: string
  mc_number :: string
  carrier_offer :: "64 word"
  round_n :: int
  broker_offer :: "64 word option"
  accepted :: "bool option"

record CallSummary =
  call_id :: string
  carrier_mc :: "string option"
  load_id :: "string option"
  final_price :: "64 word option"
  outcome :: "string option"
  sentiment :: "string option"
  offer_history :: "64 word list option"
  transcript_url :: "string option"

text \<open>
  Reading a log (main.py, lines 237-247): the list starts empty and is replaced by the
  parsed entries of the non-blank lines, unless opening or parsing raised. The argument
  is what the \<^verbatim>\<open>with\<close> block computes, \<open>None\<close> when it raised.
\<close>

definition read_log :: "'a list option \<Rightarrow> 'a list" where
  "read_log parsed = (case parsed of None \<Rightarrow> [] | Some entries \<Rightarrow> entries)"

text \<open>\<^verbatim>\<open>by_call.setdefault(cid, []).append(o)\<close> on a dict kept in insertion order.\<close>

definition setdefault_append ::
  "(string \<times> 'a list) list \<Rightarrow> string \<Rightarrow> 'a \<Rightarrow> (string \<times> 'a list) list" where
  "setdefault_append by_call cid x =
    (case map_of by_call cid of
       None \<Rightarrow> by_call @ [(cid, [x])]
     | Some v \<Rightarrow> AList.update cid (v @ [x]) by_call)"

text \<open>The loop of main.py, lines 251-254; \<^verbatim>\<open>not cid\<close> holds for the empty string.\<close>

fun group_by_call ::
  "OfferLog list \<Rightarrow> (string \<times> OfferLog list) list \<Rightarrow> (string \<times> OfferLog list) list" where
  "group_by_call [] by_call = by_call"
| "group_by_call (x # xs) by_call =
    (let cid = OfferLog.call_id x
     in if cid = [] then group_by_call xs by_call
        else group_by_call xs (setdefault_append by_call cid x))"

text \<open>
  \<^verbatim>\<open>collections.Counter\<close> of a list of strings, and \<^verbatim>\<open>c.get(k, 0)\<close> on it.
\<close>

fun Counter_update :: "string list \<Rightarrow> (string \<times> nat) list \<Rightarrow> (string \<times> nat) list" where
  "Counter_update [] c = c"
| "Counter_update (k # ks) c =
    Counter_update ks
      (case map_of c k of None \<Rightarrow> c @ [(k, 1)] | Some n \<Rightarrow> AList.update k (n + 1) c)"

definition Counter :: "string list \<Rightarrow> (string \<times> nat) list" where
  "Counter ks = Counter_update ks []"

definition counter_get :: "(string \<times> nat) list \<Rightarrow> string \<Rightarrow> nat" where
  "counter_get c k = (case map_of c k of None \<Rightarrow> 0 | Some n \<Rightarrow> n)"

text \<open>\<^verbatim>\<open>x or d\<close> for an optional string \<open>x\<close>: \<^verbatim>\<open>None\<close> and the empty string are false.\<close>

definition str_or :: "string option \<Rightarrow> string \<Rightarrow> string" where
  "str_or x d = (case x of None \<Rightarrow> d | Some s \<Rightarrow> if s \<noteq> [] then s else d)"

text \<open>
  The snapshot \<^verbatim>\<open>metrics\<close> returns (main.py, lines 260-271). \<open>avg_rounds\<close> is the exact
  quotient; Python returns the binary64 nearest to it, and \<open>0.0\<close> is \<open>0\<close>.
\<close>

record totals =
  calls :: nat
  offers_logged :: nat
  avg_rounds :: rat
  accepted :: nat
  rejected :: nat
  not_eligible :: nat

record snapshot =
  totals :: totals
  outcomes :: "(string \<times> nat) list"
  sentiments :: "(string \<times> nat) list"

definition metrics :: "OfferLog list option \<Rightarrow> CallSummary list option \<Rightarrow> snapshot" where
  "metrics offers_file summaries_file =
    (let offers = read_log offers_file;
         summaries = read_log summaries_file;
         by_call = group_by_call offers [];
         rounds = map (\<lambda>(cid, v). length v) by_call;
         outcomes = Counter (map (\<lambda>s. str_or (outcome s) ''Other'') summaries);
         sentiments = Counter (map (\<lambda>s. str_or (sentiment s) ''Neutral'') summaries)
     in \<lparr>totals =
           \<lparr>calls = length (remdups (map CallSummary.call_id summaries)),
            offers_logged = length offers,
            avg_rounds =
              (if rounds \<noteq> [] then of_nat (sum_list rounds) / of_nat (length rounds) else 0),
            accepted = counter_get outcomes ''Accepted'',
            rejected = counter_get outcomes ''Rejected'',
            not_eligible = counter_get outcomes ''Not Eligible''\<rparr>,
         outcomes = outcomes,
         sentiments = sentiments\<rparr>)"

section \<open>Load filter and ranking\<close>

text \<open>
  The parts of the built-ins \<^verbatim>\<open>float\<close> and \<^verbatim>\<open>str\<close> that depend on the binary64
  arithmetic and on the printing of floats and containers are taken from the
  interpreter: the conversion of an integer and the parsing of a string to a float
  (each may raise), and the text of a float, a list or a dict. Everything proved
  below holds whatever these three functions are.
\<close>

record builtins =
  float_of_int :: "int \<Rightarrow> pyerr + 64 word"
  float_of_str :: "string \<Rightarrow> pyerr + 64 word"
  repr_of :: "pyval \<Rightarrow> string"

text \<open>\<^verbatim>\<open>float(x)\<close>: \<^verbatim>\<open>True\<close> is \<open>1.0\<close> (\<open>0x3FF0000000000000\<close>), \<^verbatim>\<open>False\<close> is \<open>0.0\<close>.\<close>

fun py_float :: "builtins \<Rightarrow> pyval \<Rightarrow> pyerr + 64 word" where
  "py_float B PNone = Inl TypeError"
| "py_float B (PBool b) = Inr (if b then 0x3FF0000000000000 else 0)"
| "py_float B (PInt i) = float_of_int B i"
| "py_float B (PFloat w) = Inr w"
| "py_float B (PStr s) = float_of_str B s"
| "py_float B (PList xs) = Inl TypeError"
| "py_float B (PDict d) = Inl TypeError"

text \<open>The decimal digits of a natural number, and \<^verbatim>\<open>str(x)\<close>.\<close>

fun digits :: "nat \<Rightarrow> string" where
  "digits n =
    (if n < 10 then [char_of (48 + n)] else digits (n div 10) @ [char_of (48 + n mod 10)])"

fun py_str :: "builtins \<Rightarrow> pyval \<Rightarrow> string" where
  "py_str B PNone = ''None''"
| "py_str B (PBool b) = (if b then ''True'' else ''False'')"
| "py_str B (PInt i) = (if i < 0 then ''-'' @ digits (nat (- i)) else digits (nat i))"
| "py_str B (PStr s) = s"
| "py_str B v = repr_of B v"

text \<open>
  \<^verbatim>\<open>_norm\<close> (main.py, lines 111-112), \<^verbatim>\<open>(s or "").strip().lower()\<close>, at the three
  kinds of argument it is given: a string (the result of \<^verbatim>\<open>str\<close>), an optional string
  (a query parameter) and a field of a record, where \<^verbatim>\<open>.strip\<close> raises
  \<^verbatim>\<open>AttributeError\<close> on a true value that is not a string.
\<close>

definition norm_str :: "string \<Rightarrow> string" where
  "norm_str s = lower (strip s)"

definition norm_opt :: "string option \<Rightarrow> string" where
  "norm_opt s = norm_str (case s of None \<Rightarrow> [] | Some t \<Rightarrow> t)"

definition norm_val :: "pyval \<Rightarrow> pyerr + string" where
  "norm_val v = (case py_or v (PStr []) of PStr t \<Rightarrow> Inr (norm_str t) | _ \<Rightarrow> Inl AttributeError)"

text \<open>
  \<^verbatim>\<open>s in x\<close> for a string \<open>s\<close>: a substring test on a string, membership in a list,
  key membership in a dict, \<^verbatim>\<open>TypeError\<close> on the other values.
\<close>

fun py_contains :: "string \<Rightarrow> pyval \<Rightarrow> pyerr + bool" where
  "py_contains s (PStr t) = Inr (sublist s t)"
| "py_contains s (PList xs) = Inr (PStr s \<in> set xs)"
| "py_contains s (PDict d) = Inr (map_of d s \<noteq> None)"
| "py_contains s _ = Inl TypeError"

text \<open>
  The test of one record (main.py, lines 122-129), on the normalised criteria and the
  raw \<open>pickup_date\<close>. The conditions are evaluated in the order of the source; each
  \<^verbatim>\<open>if c and ...\<close> leaves its right operand unevaluated when \<open>c\<close> is empty.
\<close>

definition row_match ::
  "builtins \<Rightarrow> string \<Rightarrow> string \<Rightarrow> string \<Rightarrow> string \<Rightarrow> string option \<Rightarrow> string \<Rightarrow> pydict
    \<Rightarrow> pyerr + bool" where
  "row_match B oc os dc ds pickup_date et r =
    (case norm_val (dict_get r ''origin'') of
       Inl e \<Rightarrow> Inl e
     | Inr ro \<Rightarrow>
        (case norm_val (dict_get r ''destination'') of
           Inl e \<Rightarrow> Inl e
         | Inr rd \<Rightarrow>
            (let match = True;
                 match = (if oc \<noteq> [] \<and> \<not> sublist oc ro then False else match);
                 match = (if os \<noteq> [] \<and> \<not> sublist os ro then False else match);
                 match = (if dc \<noteq> [] \<and> \<not> sublist dc rd then False else match);
                 match = (if ds \<noteq> [] \<and> \<not> sublist ds rd then False else match);
                 match = (if et \<noteq> []
                             \<and> et \<noteq> norm_str (py_str B (dict_get r ''equipment_type''))
                          then False else match)
             in case pickup_date of
                  None \<Rightarrow> Inr match
                | Some pd \<Rightarrow>
                    if pd = [] then Inr match
                    else (case py_contains pd (py_or (dict_get r ''pickup_datetime'') (PStr []))
                          of Inl e \<Rightarrow> Inl e
                           | Inr found \<Rightarrow> Inr (if \<not> found then False else match)))))"

text \<open>
  The copy of a matching record with its rate coerced (main.py, lines 131-135):
  \<^verbatim>\<open>r2[k] = v\<close> replaces the value of a key in place and appends a new key.
\<close>

definition coerce_rate :: "builtins \<Rightarrow> pydict \<Rightarrow> pydict" where
  "coerce_rate B r =
    (let r2 = r
     in case py_float B (dict_get r2 ''loadboard_rate'') of
          Inl e \<Rightarrow> r2
        | Inr f \<Rightarrow> AList.update ''loadboard_rate'' (PFloat f) r2)"

text \<open>
  The loop over \<^verbatim>\<open>LOADS\<close> (main.py, lines 121-136) with \<open>out\<close> as accumulator;
  \<^verbatim>\<open>r.get\<close> raises \<^verbatim>\<open>AttributeError\<close> on an element that is not a dict.
\<close>

fun filter_loop ::
  "builtins \<Rightarrow> string \<Rightarrow> string \<Rightarrow> string \<Rightarrow> string \<Rightarrow> string option \<Rightarrow> string
    \<Rightarrow> pyval list \<Rightarrow> pydict list \<Rightarrow> pyerr + pydict list" where
  "filter_loop B oc os dc ds pickup_date et [] out = Inr out"
| "filter_loop B oc os dc ds pickup_date et (r # rs) out =
    (case r of
       PDict d \<Rightarrow>
         (case row_match B oc os dc ds pickup_date et d of
            Inl e \<Rightarrow> Inl e
          | Inr match \<Rightarrow>
              filter_loop B oc os dc ds pickup_date et rs
                (if match then out @ [coerce_rate B d] else out))
     | _ \<Rightarrow> Inl AttributeError)"

text \<open>
  The sort key of main.py, line 138: a pair of a boolean and a string, compared
  lexicographically, \<^verbatim>\<open>False\<close> before \<^verbatim>\<open>True\<close>, strings by code points.
\<close>

definition rank_key :: "builtins \<Rightarrow> string \<Rightarrow> pydict \<Rightarrow> bool \<times> string" where
  "rank_key B et x =
    (norm_str (py_str B (dict_get x ''equipment_type'')) \<noteq> et,
     py_str B (py_or (dict_get x ''pickup_datetime'') (PStr [])))"

text \<open>
  \<^verbatim>\<open>_filter_loads\<close> (main.py, lines 114-139) on the store \<open>LOADS\<close>. \<^verbatim>\<open>list.sort\<close> is
  stable, as \<^const>\<open>sort_key\<close> is; \<^verbatim>\<open>out[:3]\<close> is \<open>take 3\<close>.
\<close>

definition filter_loads ::
  "builtins \<Rightarrow> pyval list \<Rightarrow> string option \<Rightarrow> string option \<Rightarrow> string option \<Rightarrow> string option
    \<Rightarrow> string option \<Rightarrow> string option \<Rightarrow> pyerr + pydict list" where
  "filter_loads B LOADS origin_city origin_state destination_city destination_state
      pickup_date equipment_type =
    (let oc = norm_opt origin_city;
         os = norm_opt origin_state;
         dc = norm_opt destination_city;
         ds = norm_opt destination_state;
         et = norm_opt equipment_type
     in case filter_loop B oc os dc ds pickup_date et LOADS [] of
          Inl e \<Rightarrow> Inl e
        | Inr out \<Rightarrow> Inr (take 3 (sort_key (rank_key B et) out)))"

text \<open>
  The rules of the filter, one per criterion, stated on the query parameter as it is
  given and on a field of the record. A criterion that is absent, empty or blank after
  normalisation imposes nothing. \<open>pickup_date\<close> is used as given, with \<^verbatim>\<open>in\<close>, when it
  is not empty.
\<close>

definition crit_substring :: "string option \<Rightarrow> string \<Rightarrow> bool" where
  "crit_substring c field = (norm_opt c = [] \<or> sublist (norm_opt c) field)"

definition crit_equal :: "string option \<Rightarrow> string \<Rightarrow> bool" where
  "crit_equal c field = (norm_opt c = [] \<or> norm_opt c = field)"

definition crit_pickup :: "string option \<Rightarrow> pyval \<Rightarrow> bool" where
  "crit_pickup pickup_date v =
    (case pickup_date of
       None \<Rightarrow> True
     | Some s \<Rightarrow> s = [] \<or> py_contains s (py_or v (PStr [])) = Inr True)"

text \<open>The normalised text of a field of a record (empty where \<^verbatim>\<open>_norm\<close> raises).\<close>

definition field_norm :: "pydict \<Rightarrow> string \<Rightarrow> string" where
  "field_norm r k = (case norm_val (dict_get r k) of Inr s \<Rightarrow> s | Inl e \<Rightarrow> [])"

definition matches ::
  "builtins \<Rightarrow> string option \<Rightarrow> string option \<Rightarrow> string option \<Rightarrow> string option
    \<Rightarrow> string option \<Rightarrow> string option \<Rightarrow> pydict \<Rightarrow> bool" where
  "matches B origin_city origin_state destination_city destination_state
      pickup_date equipment_type r =
    (crit_substring origin_city (field_norm r ''origin'')
     \<and> crit_substring origin_state (field_norm r ''origin'')
     \<and> crit_substring destination_city (field_norm r ''destination'')
     \<and> crit_substring destination_state (field_norm r ''destination'')
     \<and> crit_equal equipment_type (norm_str (py_str B (dict_get r ''equipment_type'')))
     \<and> crit_pickup pickup_date (dict_get r ''pickup_datetime''))"

text \<open>
  The records on which the test of one record does not raise: \<open>origin\<close> and
  \<open>destination\<close> are strings or false values, and, when a \<open>pickup_date\<close> is given,
  \<open>pickup_datetime\<close> is a string, a list, a dict or a false value.
\<close>

fun str_or_false :: "pyval \<Rightarrow> bool" where
  "str_or_false (PStr s) = True"
| "str_or_false v = (\<not> truthy v)"

fun container_or_false :: "pyval \<Rightarrow> bool" where
  "container_or_false (PStr s) = True"
| "container_or_false (PList xs) = True"
| "container_or_false (PDict d) = True"
| "container_or_false v = (\<not> truthy v)"

definition row_typed :: "string option \<Rightarrow> pydict \<Rightarrow> bool" where
  "row_typed pickup_date r =
    (str_or_false (dict_get r ''origin'') \<and> str_or_false (dict_get r ''destination'')
     \<and> (pickup_date = None \<or> pickup_date = Some []
         \<or> container_or_false (dict_get r ''pickup_datetime'')))"

definition store_typed :: "string option \<Rightarrow> pyval list \<Rightarrow> bool" where
  "store_typed pickup_date LOADS =
    list_all (\<lambda>r. case r of PDict d \<Rightarrow> row_typed pickup_date d | _ \<Rightarrow> False) LOADS"

text \<open>The dicts among the elements of a store, in store order.\<close>

definition dicts_of :: "pyval list \<Rightarrow> pydict list" where
  "dicts_of LOADS = List.map_filter as_dict LOADS"

text \<open>
  An interpreter for the worked examples: its conversions raise and its texts are
  empty. The examples use records whose fields are strings and whose rate is absent
  or already a float, so that no result depends on it.
\<close>

definition example_builtins :: builtins where
  "example_builtins =
    \<lparr>float_of_int = (\<lambda>i. Inl OverflowError), float_of_str = (\<lambda>s. Inl ValueError),
     repr_of = (\<lambda>v. [])\<rparr>"

definition load_A :: pydict where
  "load_A = [(''load_id'', PStr ''A''), (''origin'', PStr ''Chicago, IL''),
             (''destination'', PStr ''Dallas, TX''),
             (''pickup_datetime'', PStr ''2025-09-08T08:00:00''),
             (''equipment_type'', PStr ''Dry Van'')]"

definition load_B :: pydict where
  "load_B = [(''load_id'', PStr ''B''), (''origin'', PStr ''Atlanta, GA''),
             (''destination'', PStr ''Orlando, FL''),
             (''pickup_datetime'', PStr ''2025-09-08T07:00:00''),
             (''equipment_type'', PStr ''Reefer'')]"

definition load_C :: pydict where
  "load_C = [(''load_id'', PStr ''C''), (''origin'', PStr ''Chicago, IL''),
             (''destination'', PStr ''Memphis, TN''),
             (''pickup_datetime'', PStr ''2025-09-09T06:00:00''),
             (''equipment_type'', PStr ''Dry Van'')]"

definition load_D :: pydict where
  "load_D = [(''load_id'', PStr ''D''), (''origin'', PStr ''Chicago, IL''),
             (''destination'', PStr ''Denver, CO''),
             (''pickup_datetime'', PStr ''2025-09-10T09:00:00''),
             (''equipment_type'', PStr ''dry van ''),
             (''loadboard_rate'', PFloat 0x4096A80000000000)]"

text \<open>
  The rule for \<open>pickup_date\<close> as C1 words it: a case-insensitive substring match
  against the normalised pickup timestamp. \<open>matches_normalised\<close> is \<open>matches\<close> with that
  rule in place of \<open>crit_pickup\<close>.
\<close>

definition crit_pickup_normalised :: "string option \<Rightarrow> string \<Rightarrow> bool" where
  "crit_pickup_normalised pickup_date field =
    (case pickup_date of None \<Rightarrow> True | Some s \<Rightarrow> sublist (lower s) field)"

definition matches_normalised ::
  "builtins \<Rightarrow> string option \<Rightarrow> string option \<Rightarrow> string option \<Rightarrow> string option
    \<Rightarrow> string option \<Rightarrow> string option \<Rightarrow> pydict \<Rightarrow> bool" where
  "matches_normalised B origin_city origin_state destination_city destination_state
      pickup_date equipment_type r =
    (crit_substring origin_city (field_norm r ''origin'')
     \<and> crit_substring origin_state (field_norm r ''origin'')
     \<and> crit_substring destination_city (field_norm r ''destination'')
     \<and> crit_substring destination_state (field_norm r ''destination'')
     \<and> crit_equal equipment_type (norm_str (py_str B (dict_get r ''equipment_type'')))
     \<and> crit_pickup_normalised pickup_date (field_norm r ''pickup_datetime''))"

section \<open>The filter on shared objects\<close>

text \<open>
  To speak of what the filter does to the store, the records are objects in a memory:
  an address is an index into the list of objects, allocation appends, and the
  module-level list \<^verbatim>\<open>LOADS\<close> is a list of addresses. The statements of
  \<^verbatim>\<open>_filter_loads\<close> that write are \<^verbatim>\<open>r2 = dict(r)\<close> (a new object),
  \<^verbatim>\<open>r2["loadboard_rate"] = ...\<close> (a write to the object of \<open>r2\<close>) and the appends and the
  sort of the local list \<open>out\<close>. The values of the fields are never written, so they
  stay values.
\<close>

type_synonym addr = nat

record memory =
  objects :: "pyval list"
  loads :: "addr list"

definition deref :: "memory \<Rightarrow> addr \<Rightarrow> pyval option" where
  "deref m a = (if a < length (objects m) then Some (objects m ! a) else None)"

definition obj_dict :: "memory \<Rightarrow> addr \<Rightarrow> pydict" where
  "obj_dict m a = (case deref m a of Some (PDict d) \<Rightarrow> d | _ \<Rightarrow> [])"

definition alloc :: "memory \<Rightarrow> pyval \<Rightarrow> addr \<times> memory" where
  "alloc m v = (length (objects m), m\<lparr>objects := objects m @ [v]\<rparr>)"

text \<open>\<^verbatim>\<open>x[k] = v\<close> on the dict at an address.\<close>

definition set_item :: "memory \<Rightarrow> addr \<Rightarrow> string \<Rightarrow> pyval \<Rightarrow> memory" where
  "set_item m a k v =
    (case deref m a of
       Some (PDict d) \<Rightarrow> m\<lparr>objects := (objects m)[a := PDict (AList.update k v d)]\<rparr>
     | _ \<Rightarrow> m)"

text \<open>
  The loop of main.py, lines 121-136, on the memory: each step reads the record at
  its address, and for a match allocates the copy, coerces the rate in the copy and
  appends the address of the copy to \<open>out\<close>. The memory is returned with the outcome,
  also when an exception ends the loop.
\<close>

fun filter_loop_mem ::
  "builtins \<Rightarrow> string \<Rightarrow> string \<Rightarrow> string \<Rightarrow> string \<Rightarrow> string option \<Rightarrow> string
    \<Rightarrow> addr list \<Rightarrow> addr list \<Rightarrow> memory \<Rightarrow> (pyerr + addr list) \<times> memory" where
  "filter_loop_mem B oc os dc ds pickup_date et [] out m = (Inr out, m)"
| "filter_loop_mem B oc os dc ds pickup_date et (r # rs) out m =
    (case deref m r of
       Some (PDict d) \<Rightarrow>
         (case row_match B oc os dc ds pickup_date et d of
            Inl e \<Rightarrow> (Inl e, m)
          | Inr match \<Rightarrow>
              if match then
                (let (r2, m1) = alloc m (PDict d);
                     m2 = (case py_float B (dict_get (obj_dict m1 r2) ''loadboard_rate'') of
                             Inl e \<Rightarrow> m1
                           | Inr f \<Rightarrow> set_item m1 r2 ''loadboard_rate'' (PFloat f))
                 in filter_loop_mem B oc os dc ds pickup_date et rs (out @ [r2]) m2)
              else filter_loop_mem B oc os dc ds pickup_date et rs out m)
     | _ \<Rightarrow> (Inl AttributeError, m))"

text \<open>\<^verbatim>\<open>_filter_loads\<close> on the memory: the loop over \<^verbatim>\<open>LOADS\<close>, the sort and the slice.\<close>

definition filter_loads_mem ::
  "builtins \<Rightarrow> memory \<Rightarrow> string option \<Rightarrow> string option \<Rightarrow> string option \<Rightarrow> string option
    \<Rightarrow> string option \<Rightarrow> string option \<Rightarrow> (pyerr + addr list) \<times> memory" where
  "filter_loads_mem B m origin_city origin_state destination_city destination_state
      pickup_date equipment_type =
    (let oc = norm_opt origin_city;
         os = norm_opt origin_state;
         dc = norm_opt destination_city;
         ds = norm_opt destination_state;
         et = norm_opt equipment_type;
         (res, m') = filter_loop_mem B oc os dc ds pickup_date et (loads m) [] m
     in case res of
          Inl e \<Rightarrow> (Inl e, m')
        | Inr out \<Rightarrow> (Inr (take 3 (sort_key (\<lambda>x. rank_key B et (obj_dict m' x)) out)), m'))"

section \<open>Event log files\<close>

abbreviation LF :: char where "LF \<equiv> CHR 0x0A"
abbreviation CR :: char where "CR \<equiv> CHR 0x0D"


subsection \<open>The writer\<close>






subsection \<open>The reader\<close>


















subsection \<open>The logger and the reading of a log\<close>













subsection \<open>Entries that the round trip is stated for\<close>










section \<open>Properties of the eligibility verdict\<close>

lemma sublist_self_app: "sublist xs (ys @ xs @ zs)"
  by (auto simp: sublist_def)

lemma sublist_app_pre: "sublist xs (ys @ xs)"
  using sublist_self_app [of xs ys "[]"] by simp

text \<open>
  C6, as stated, fails: a record with \<open>outOfService = "Y"\<close> whose \<open>outOfServiceDate\<close> is
  a number makes the concatenation \<^verbatim>\<open>' since ' + oos_d\<close> raise, so the function is not
  total and gives no verdict although \<open>allowToOperate = "N"\<close>.
\<close>

theorem compute_verdict_counterexample:
  "compute_verdict [(''allowToOperate'', PStr ''N''), (''outOfService'', PStr ''Y''),
                    (''outOfServiceDate'', PInt 20240101)] = Inl TypeError"
  by (simp add: compute_verdict_def dict_get_def)

text \<open>
  C6, amended. The function returns on every carrier record except those with
  \<open>outOfService = "Y"\<close> and an \<open>outOfServiceDate\<close> that is a true value other than a
  string. When neither \<open>allowToOperate = "N"\<close> nor \<open>outOfService = "Y"\<close> holds (in
  particular when both keys are missing) the verdict is eligible with the fixed reason;
  \<open>allowToOperate = "N"\<close> alone gives not-eligible with reason \<open>allowToOperate=N\<close>;
  \<open>outOfService = "Y"\<close> gives not-eligible with the fragment \<open>outOfService=Y\<close>, followed by
  \<open> since <date>\<close> when the date is a non-empty string and by nothing when the date is
  missing or false; when both conditions trigger the two fragments are joined by
  \<open>; \<close>. Whenever the function returns, the flag is the conjunction of the two negated
  conditions and the reason contains the fragment of every condition that triggered.
\<close>

theorem compute_verdict_cases:
  fixes carrier :: pydict
  defines "allow \<equiv> dict_get carrier ''allowToOperate''"
      and "oos \<equiv> dict_get carrier ''outOfService''"
      and "oos_d \<equiv> dict_get carrier ''outOfServiceDate''"
  shows "(map_of carrier ''allowToOperate'' = None \<and> map_of carrier ''outOfService'' = None
            \<longrightarrow> compute_verdict carrier =
                 Inr (True, ''Active: allowed to operate and not out of service''))
       \<and> (allow \<noteq> PStr ''N'' \<and> oos \<noteq> PStr ''Y''
            \<longrightarrow> compute_verdict carrier =
                 Inr (True, ''Active: allowed to operate and not out of service''))
       \<and> (allow = PStr ''N'' \<and> oos \<noteq> PStr ''Y''
            \<longrightarrow> compute_verdict carrier = Inr (False, ''allowToOperate=N''))
       \<and> (allow \<noteq> PStr ''N'' \<and> oos = PStr ''Y'' \<and> \<not> truthy oos_d
            \<longrightarrow> compute_verdict carrier = Inr (False, ''outOfService=Y''))
       \<and> (allow = PStr ''N'' \<and> oos = PStr ''Y'' \<and> \<not> truthy oos_d
            \<longrightarrow> compute_verdict carrier = Inr (False, ''allowToOperate=N; outOfService=Y''))
       \<and> (\<forall>d. allow \<noteq> PStr ''N'' \<and> oos = PStr ''Y'' \<and> oos_d = PStr d \<and> d \<noteq> []
            \<longrightarrow> compute_verdict carrier = Inr (False, ''outOfService=Y since '' @ d))
       \<and> (\<forall>d. allow = PStr ''N'' \<and> oos = PStr ''Y'' \<and> oos_d = PStr d \<and> d \<noteq> []
            \<longrightarrow> compute_verdict carrier =
                 Inr (False, ''allowToOperate=N; outOfService=Y since '' @ d))
       \<and> (\<forall>ok reason. compute_verdict carrier = Inr (ok, reason) \<longrightarrow>
            (ok \<longleftrightarrow> allow \<noteq> PStr ''N'' \<and> oos \<noteq> PStr ''Y'')
          \<and> (allow = PStr ''N'' \<longrightarrow> sublist ''allowToOperate=N'' reason)
          \<and> (oos = PStr ''Y'' \<longrightarrow> sublist ''outOfService=Y'' reason)
          \<and> (\<forall>d. oos = PStr ''Y'' \<and> oos_d = PStr d \<and> d \<noteq> []
                 \<longrightarrow> sublist (''outOfService=Y since '' @ d) reason))
       \<and> ((\<exists>v. compute_verdict carrier = Inr v)
            \<longleftrightarrow> \<not> (oos = PStr ''Y'' \<and> truthy oos_d \<and> (\<forall>d. oos_d \<noteq> PStr d)))"
proof -
  have eqs: "(map_of carrier ''allowToOperate'' = None \<and> map_of carrier ''outOfService'' = None
            \<longrightarrow> compute_verdict carrier =
                 Inr (True, ''Active: allowed to operate and not out of service''))
       \<and> (allow \<noteq> PStr ''N'' \<and> oos \<noteq> PStr ''Y''
            \<longrightarrow> compute_verdict carrier =
                 Inr (True, ''Active: allowed to operate and not out of service''))
       \<and> (allow = PStr ''N'' \<and> oos \<noteq> PStr ''Y''
            \<longrightarrow> compute_verdict carrier = Inr (False, ''allowToOperate=N''))
       \<and> (allow \<noteq> PStr ''N'' \<and> oos = PStr ''Y'' \<and> \<not> truthy oos_d
            \<longrightarrow> compute_verdict carrier = Inr (False, ''outOfService=Y''))
       \<and> (allow = PStr ''N'' \<and> oos = PStr ''Y'' \<and> \<not> truthy oos_d
            \<longrightarrow> compute_verdict carrier = Inr (False, ''allowToOperate=N; outOfService=Y''))
       \<and> (\<forall>d. allow \<noteq> PStr ''N'' \<and> oos = PStr ''Y'' \<and> oos_d = PStr d \<and> d \<noteq> []
            \<longrightarrow> compute_verdict carrier = Inr (False, ''outOfService=Y since '' @ d))
       \<and> (\<forall>d. allow = PStr ''N'' \<and> oos = PStr ''Y'' \<and> oos_d = PStr d \<and> d \<noteq> []
            \<longrightarrow> compute_verdict carrier =
                 Inr (False, ''allowToOperate=N; outOfService=Y since '' @ d))"
    unfolding allow_def oos_def oos_d_def
    by (simp add: compute_verdict_def dict_get_def Let_def)
  have contains: "(ok \<longleftrightarrow> allow \<noteq> PStr ''N'' \<and> oos \<noteq> PStr ''Y'')
          \<and> (allow = PStr ''N'' \<longrightarrow> sublist ''allowToOperate=N'' reason)
          \<and> (oos = PStr ''Y'' \<longrightarrow> sublist ''outOfService=Y'' reason)
          \<and> (\<forall>d. oos = PStr ''Y'' \<and> oos_d = PStr d \<and> d \<noteq> []
                 \<longrightarrow> sublist (''outOfService=Y since '' @ d) reason)"
    if r: "compute_verdict carrier = Inr (ok, reason)" for ok reason
  proof -
    have a: "sublist ''allowToOperate=N'' (''allowToOperate=N'' @ zs)" for zs
      using sublist_self_app [of "''allowToOperate=N''" "[]" zs] by simp
    have b: "sublist (''outOfService=Y'' @ xs) (''allowToOperate=N; '' @ ''outOfService=Y'' @ xs)"
      for xs
      by (rule sublist_app_pre [of "''outOfService=Y'' @ xs" "''allowToOperate=N; ''"])
    have c: "sublist ''outOfService=Y'' (ps @ ''outOfService=Y'' @ xs)" for ps xs
      by (rule sublist_self_app)
    show ?thesis
      using r a b c [of "[]"] c [of "''allowToOperate=N; ''"]
      unfolding allow_def oos_def oos_d_def
      by (cases "dict_get carrier ''outOfServiceDate''")
         (auto simp: compute_verdict_def Let_def split: if_splits)
  qed
  have total: "(\<exists>v. compute_verdict carrier = Inr v)
            \<longleftrightarrow> \<not> (oos = PStr ''Y'' \<and> truthy oos_d \<and> (\<forall>d. oos_d \<noteq> PStr d))"
    unfolding allow_def oos_def oos_d_def
    by (cases "dict_get carrier ''outOfServiceDate''")
       (auto simp: compute_verdict_def Let_def)
  from eqs contains total show ?thesis by blast
qed

theorem compute_verdict_cases_witness:
  "compute_verdict [(''allowToOperate'', PStr ''N''), (''outOfService'', PStr ''Y''),
                    (''outOfServiceDate'', PStr ''2024-01-01'')]
     = Inr (False, ''allowToOperate=N; outOfService=Y since 2024-01-01'')
   \<and> sublist ''allowToOperate=N'' ''allowToOperate=N; outOfService=Y since 2024-01-01''
   \<and> sublist ''outOfService=Y since 2024-01-01''
        ''allowToOperate=N; outOfService=Y since 2024-01-01''
   \<and> compute_verdict [(''legalName'', PStr ''ACME'')]
     = Inr (True, ''Active: allowed to operate and not out of service'')
   \<and> compute_verdict [(''allowToOperate'', PStr ''N'')] = Inr (False, ''allowToOperate=N'')
   \<and> compute_verdict [(''outOfService'', PStr ''Y'')] = Inr (False, ''outOfService=Y'')"
  using compute_verdict_cases
          [of "[(''allowToOperate'', PStr ''N''), (''outOfService'', PStr ''Y''),
                (''outOfServiceDate'', PStr ''2024-01-01'')]"]
        compute_verdict_cases [of "[(''legalName'', PStr ''ACME'')]"]
        compute_verdict_cases [of "[(''allowToOperate'', PStr ''N'')]"]
        compute_verdict_cases [of "[(''outOfService'', PStr ''Y'')]"]
  by (auto simp: dict_get_def)

section \<open>Properties of the carrier lookup\<close>

lemma scan_items_eq:
  "scan_items items =
     (case List.map_filter carrier_of items of [] \<Rightarrow> None | c # _ \<Rightarrow> Some c)"
  by (induction items)
     (auto simp: List.map_filter_simps carrier_of_def split: pyval.splits list.splits)

lemma scan_values_eq:
  "scan_values vs =
     (case concat (map carriers_in_list vs) of [] \<Rightarrow> None | c # _ \<Rightarrow> Some c)"
proof (induction vs)
  case Nil
  show ?case by simp
next
  case (Cons v vs)
  show ?case
  proof (cases "carriers_in_list v")
    case Nil
    then have "scan_values (v # vs) = scan_values vs"
      by (cases v) (auto simp: carriers_in_list_def scan_items_eq split: list.splits)
    with Nil Cons show ?thesis by simp
  next
    case (Cons c cs)
    then have "scan_values (v # vs) = Some c"
      by (cases v) (auto simp: carriers_in_list_def scan_items_eq split: list.splits)
    with Cons show ?thesis by simp
  qed
qed

lemma choose_carrier_first: "choose_carrier payload = first_carrier payload"
proof (cases payload)
  case (PDict d)
  show ?thesis
  proof (cases "dict_get d ''carrier''")
    case (PDict c)
    with \<open>payload = PDict d\<close> show ?thesis
      by (simp add: choose_carrier_def first_carrier_def carrier_candidates_def carrier_of_def
          List.map_filter_simps)
  qed (use \<open>payload = PDict d\<close> in
        \<open>simp_all add: choose_carrier_def first_carrier_def carrier_candidates_def
           carrier_of_def List.map_filter_simps scan_values_eq\<close>)
next
  case (PList items)
  then show ?thesis
    by (simp add: choose_carrier_def first_carrier_def carrier_candidates_def
        carriers_in_list_def scan_items_eq)
qed (simp_all add: choose_carrier_def first_carrier_def carrier_candidates_def)

lemma find_carrier_not_found:
  assumes "FMCSA_WEBKEY \<noteq> []" and "MC_RE_match (strip mc)"
    and "upstream (''/carriers/docket-number/'' @ strip mc) = r"
    and "status_code r \<noteq> 401" and "status_code r \<noteq> 404" and "status_code r < 500"
    and "json r = Some data" and "choose_carrier data = None"
  shows "find_carrier FMCSA_WEBKEY upstream mc =
           Inl (HTTPException 404
                 (case data of PDict d \<Rightarrow> dict_get d ''content''
                  | _ \<Rightarrow> PStr ''Carrier not found or unrecognized response''))"
  using assms by (simp add: find_carrier_def Let_def)

text \<open>
  C7. For every payload, \<open>choose_carrier\<close> returns the first carrier object in the
  order of the extraction rule (the top-level \<open>carrier\<close> object of a payload object,
  then the \<open>carrier\<close> objects inside the dict elements of its list-valued fields; for a
  payload list, the \<open>carrier\<close> objects inside its dict elements) and not-found exactly
  when there is none; and when it returns not-found for the JSON of an upstream
  response that passed the status checks, the endpoint raises the 404 exception.
\<close>

theorem choose_carrier_first_match:
  "choose_carrier payload = first_carrier payload
   \<and> (choose_carrier payload = None \<longleftrightarrow> carrier_candidates payload = [])
   \<and> (\<forall>c. choose_carrier payload = Some c \<longleftrightarrow>
          carrier_candidates payload \<noteq> [] \<and> c = hd (carrier_candidates payload))
   \<and> (FMCSA_WEBKEY \<noteq> [] \<and> MC_RE_match (strip mc)
        \<and> upstream (''/carriers/docket-number/'' @ strip mc) = r
        \<and> status_code r \<noteq> 401 \<and> status_code r \<noteq> 404 \<and> status_code r < 500
        \<and> json r = Some payload \<and> choose_carrier payload = None
      \<longrightarrow> find_carrier FMCSA_WEBKEY upstream mc =
            Inl (HTTPException 404
                  (case payload of PDict d \<Rightarrow> dict_get d ''content''
                   | _ \<Rightarrow> PStr ''Carrier not found or unrecognized response'')))"
proof -
  have a: "choose_carrier payload = first_carrier payload"
    by (rule choose_carrier_first)
  have b: "choose_carrier payload = None \<longleftrightarrow> carrier_candidates payload = []"
    by (simp add: a first_carrier_def split: list.splits)
  have c: "choose_carrier payload = Some c \<longleftrightarrow>
             carrier_candidates payload \<noteq> [] \<and> c = hd (carrier_candidates payload)" for c
    by (auto simp: a first_carrier_def split: list.splits)
  from a b c find_carrier_not_found [of FMCSA_WEBKEY mc upstream r payload]
  show ?thesis by blast
qed

theorem choose_carrier_first_match_witness:
  "choose_carrier
     (PDict [(''content'', PList [PInt 3, PDict [(''carrier'', PDict [(''legalName'', PStr ''ACME'')])],
                                   PDict [(''carrier'', PDict [(''legalName'', PStr ''B'')])]])])
     = Some [(''legalName'', PStr ''ACME'')]
   \<and> choose_carrier (PDict [(''content'', PStr ''no such docket'')]) = None
   \<and> find_carrier ''key''
        (\<lambda>u. \<lparr>status_code = 200, json = Some (PDict [(''content'', PStr ''no such docket'')])\<rparr>)
        '' 12345 ''
     = Inl (HTTPException 404 (PStr ''no such docket''))"
proof -
  let ?p = "PDict [(''content'', PList [PInt 3, PDict [(''carrier'', PDict [(''legalName'', PStr ''ACME'')])],
                                   PDict [(''carrier'', PDict [(''legalName'', PStr ''B'')])]])]"
  let ?q = "PDict [(''content'', PStr ''no such docket'')]"
  let ?up = "\<lambda>u::string. \<lparr>status_code = 200, json = Some ?q\<rparr>"
  have c1: "carrier_candidates ?p = [[(''legalName'', PStr ''ACME'')], [(''legalName'', PStr ''B'')]]"
    by code_simp
  have c2: "carrier_candidates ?q = []"
    by code_simp
  have m: "strip '' 12345 '' = ''12345''" "MC_RE_match ''12345''"
    by code_simp+
  from choose_carrier_first_match [of ?p "[]" "[]" "\<lambda>u. \<lparr>status_code = 0, json = None\<rparr>" "\<lparr>status_code = 0, json = None\<rparr>"] c1
  have w1: "choose_carrier ?p = Some [(''legalName'', PStr ''ACME'')]"
    by (simp add: first_carrier_def)
  from choose_carrier_first_match [of ?q "''key''" "'' 12345 ''" ?up "?up []"] c2 m
  have w2: "choose_carrier ?q = None \<and> find_carrier ''key'' ?up '' 12345 '' = Inl (HTTPException 404 (PStr ''no such docket''))"
    by (simp add: dict_get_def first_carrier_def)
  from w1 w2 show ?thesis by simp
qed

section \<open>Properties of the record store\<close>

text \<open>
  C8. Loading fails with an error for every path whose lower-cased name ends in neither
  \<open>.json\<close> nor \<open>.csv\<close>, and for a JSON file whose top-level value is not an array; and
  whenever loading fails, whatever the error (missing file, parse error, schema error),
  the store is the two demo records and no error reaches the caller.
\<close>

theorem load_failure_falls_back:
  "(\<not> suffix ''.json'' (lower path) \<and> \<not> suffix ''.csv'' (lower path)
      \<longrightarrow> load_file_rows E path = Inl (RuntimeError ''LOADS_PATH must be .json or .csv''))
   \<and> (suffix ''.json'' (lower path) \<and> open_read E path = Inr f \<and> json_load E f = Inr data
        \<and> (\<forall>rows. data \<noteq> PList rows)
      \<longrightarrow> load_file_rows E path = Inl (RuntimeError ''loads.json must contain a JSON array''))
   \<and> ((suffix ''.json'' (lower path) \<or> suffix ''.csv'' (lower path)) \<and> open_read E path = Inl e
      \<longrightarrow> load_file_rows E path = Inl e)
   \<and> (suffix ''.json'' (lower path) \<and> open_read E path = Inr f \<and> json_load E f = Inl e
      \<longrightarrow> load_file_rows E path = Inl e)
   \<and> (\<forall>err. load_file_rows E path = Inl err \<longrightarrow> LOADS_init E path = demo_loads)
   \<and> (\<forall>rows. load_file_rows E path = Inr rows \<longrightarrow> LOADS_init E path = rows)
   \<and> length demo_loads = 2"
proof -
  have "load_file_rows E path = Inl (RuntimeError ''loads.json must contain a JSON array'')"
    if "suffix ''.json'' (lower path)" "open_read E path = Inr f" "json_load E f = Inr data"
       "\<forall>rows. data \<noteq> PList rows"
    using that by (cases data) (simp_all add: load_file_rows_def)
  then show ?thesis
    by (auto simp: load_file_rows_def LOADS_init_def demo_loads_def)
qed

theorem load_failure_falls_back_witness:
  "load_file_rows
      \<lparr>open_read = (\<lambda>p. Inl OSError), json_load = (\<lambda>t. Inl ValueError),
       csv_DictReader = (\<lambda>t. Inr [])\<rparr> ''/app/loads.txt''
     = Inl (RuntimeError ''LOADS_PATH must be .json or .csv'')
   \<and> LOADS_init
      \<lparr>open_read = (\<lambda>p. Inl OSError), json_load = (\<lambda>t. Inl ValueError),
       csv_DictReader = (\<lambda>t. Inr [])\<rparr> ''/app/loads.txt'' = demo_loads
   \<and> load_file_rows
      \<lparr>open_read = (\<lambda>p. Inr ''{}''), json_load = (\<lambda>t. Inr (PDict [])),
       csv_DictReader = (\<lambda>t. Inr [])\<rparr> ''/app/Loads.JSON''
     = Inl (RuntimeError ''loads.json must contain a JSON array'')
   \<and> LOADS_init
      \<lparr>open_read = (\<lambda>p. Inr ''{}''), json_load = (\<lambda>t. Inr (PDict [])),
       csv_DictReader = (\<lambda>t. Inr [])\<rparr> ''/app/Loads.JSON'' = demo_loads
   \<and> LOADS_init
      \<lparr>open_read = (\<lambda>p. Inl OSError), json_load = (\<lambda>t. Inl ValueError),
       csv_DictReader = (\<lambda>t. Inr [])\<rparr> ''/app/loads.json'' = demo_loads"
proof -
  let ?E1 = "\<lparr>open_read = (\<lambda>p::string. Inl OSError), json_load = (\<lambda>t::string. Inl ValueError),
       csv_DictReader = (\<lambda>t::string. Inr [])\<rparr>"
  let ?E2 = "\<lparr>open_read = (\<lambda>p::string. Inr ''{}''), json_load = (\<lambda>t::string. Inr (PDict [])),
       csv_DictReader = (\<lambda>t::string. Inr [])\<rparr>"
  have s1: "\<not> suffix ''.json'' (lower ''/app/loads.txt'')"
           "\<not> suffix ''.csv'' (lower ''/app/loads.txt'')"
           "suffix ''.json'' (lower ''/app/Loads.JSON'')"
           "suffix ''.json'' (lower ''/app/loads.json'')"
    by code_simp+
  from load_failure_falls_back [of "''/app/loads.txt''" ?E1 "[]" PNone OSError] s1
  have w1: "load_file_rows ?E1 ''/app/loads.txt''
              = Inl (RuntimeError ''LOADS_PATH must be .json or .csv'')
            \<and> LOADS_init ?E1 ''/app/loads.txt'' = demo_loads"
    by simp
  from load_failure_falls_back [of "''/app/Loads.JSON''" ?E2 "''{}''" "PDict []" OSError] s1
  have w2: "load_file_rows ?E2 ''/app/Loads.JSON''
              = Inl (RuntimeError ''loads.json must contain a JSON array'')
            \<and> LOADS_init ?E2 ''/app/Loads.JSON'' = demo_loads"
    by simp
  from load_failure_falls_back [of "''/app/loads.json''" ?E1 "[]" PNone OSError] s1
  have w3: "LOADS_init ?E1 ''/app/loads.json'' = demo_loads"
    by simp
  from w1 w2 w3 show ?thesis by simp
qed

section \<open>Properties of the metrics\<close>

lemma setdefault_append_keys:
  "map fst (setdefault_append acc k x) =
     (if k \<in> set (map fst acc) then map fst acc else map fst acc @ [k])"
  by (auto simp: setdefault_append_def update_keys map_of_eq_None_iff split: option.splits)

lemma setdefault_append_key_set:
  "fst ` set (setdefault_append acc k x) = insert k (fst ` set acc)"
  using setdefault_append_keys [of acc k x, THEN arg_cong, of set]
  by (auto split: if_splits)

lemma setdefault_append_map_of:
  "map_of (setdefault_append acc k x) c =
     (if c = k then Some ((case map_of acc k of None \<Rightarrow> [] | Some v \<Rightarrow> v) @ [x])
      else map_of acc c)"
  by (cases "map_of acc k")
     (auto simp: setdefault_append_def update_conv' map_add_def split: option.splits)

lemma filter_absent: "c \<notin> f ` set xs \<Longrightarrow> filter (\<lambda>x. f x = c) xs = []"
  by (auto simp: filter_empty_conv)

lemma group_by_call_distinct:
  "distinct (map fst acc) \<Longrightarrow> distinct (map fst (group_by_call xs acc))"
  by (induction xs arbitrary: acc) (auto simp: Let_def setdefault_append_keys)

lemma group_by_call_key_set:
  "fst ` set (group_by_call xs acc) =
     fst ` set acc \<union> {c \<in> OfferLog.call_id ` set xs. c \<noteq> []}"
  by (induction xs arbitrary: acc) (auto simp: Let_def setdefault_append_key_set)

lemma group_by_call_map_of:
  "map_of (group_by_call xs acc) c =
     (if c \<noteq> [] \<and> c \<in> OfferLog.call_id ` set xs
      then Some ((case map_of acc c of None \<Rightarrow> [] | Some v \<Rightarrow> v)
                 @ filter (\<lambda>x. OfferLog.call_id x = c) xs)
      else map_of acc c)"
proof (induction xs arbitrary: acc)
  case Nil
  show ?case by simp
next
  case (Cons x xs)
  show ?case
    by (cases "OfferLog.call_id x = []")
       (auto simp: Let_def Cons.IH setdefault_append_map_of filter_absent split: option.splits)
qed

lemma rounds_by_keys:
  assumes "distinct (map fst al)"
  shows "sum_list (map (\<lambda>(cid, v). f v) al) = (\<Sum>c\<in>set (map fst al). f (the (map_of al c)))"
proof -
  have "map (\<lambda>(cid, v). f v) al = map (\<lambda>c. f (the (map_of al c))) (map fst al)"
    using assms by (auto simp: map_of_eq_Some_iff [THEN iffD2])
  then show ?thesis
    using assms by (simp add: sum_list_distinct_conv_sum_set del: map_map)
qed

lemma counter_get_step:
  "counter_get (case map_of c a of None \<Rightarrow> c @ [(a, 1)] | Some n \<Rightarrow> AList.update a (n + 1) c) k
     = counter_get c k + (if a = k then 1 else 0)"
  by (cases "map_of c a")
     (auto simp: counter_get_def update_conv' map_add_def split: option.splits)

lemma Counter_update_get:
  "counter_get (Counter_update ks c) k = counter_get c k + length (filter (\<lambda>x. x = k) ks)"
proof (induction ks arbitrary: c)
  case Nil
  show ?case by simp
next
  case (Cons a ks)
  show ?case
    unfolding Counter_update.simps Cons.IH counter_get_step by simp
qed

lemma Counter_update_total:
  "sum_list (map snd (Counter_update ks c)) = sum_list (map snd c) + length ks"
proof (induction ks arbitrary: c)
  case Nil
  show ?case by simp
next
  case (Cons k ks)
  have "map_of c k = Some n \<Longrightarrow>
        sum_list (map snd (AList.update k (Suc n) c)) = Suc (sum_list (map snd c))" for n
    by (induction c) (auto split: if_splits)
  then show ?case
    by (auto simp: Cons.IH split: option.splits)
qed

lemma Counter_get: "counter_get (Counter ks) k = length (filter (\<lambda>x. x = k) ks)"
  using Counter_update_get [of ks "[]" k] by (simp add: Counter_def counter_get_def)

lemma metrics_avg_rounds:
  fixes offers :: "OfferLog list"
  defines "cids \<equiv> {c \<in> OfferLog.call_id ` set offers. c \<noteq> []}"
  shows "avg_rounds (totals (metrics (Some offers) sf)) =
           (if cids = {} then 0
            else (\<Sum>c\<in>cids. of_nat (length (filter (\<lambda>x. OfferLog.call_id x = c) offers)))
                 / of_nat (card cids))"
proof -
  let ?bc = "group_by_call offers []"
  let ?rounds = "map (\<lambda>(cid, v). length v) ?bc"
  have d: "distinct (map fst ?bc)"
    by (rule group_by_call_distinct) simp
  have ks: "set (map fst ?bc) = cids"
    using group_by_call_key_set [of offers "[]"] by (simp add: cids_def)
  have len: "length ?rounds = card cids"
    using d ks distinct_card [of "map fst ?bc"] by simp
  have "sum_list ?rounds = (\<Sum>c\<in>cids. length (the (map_of ?bc c)))"
    using rounds_by_keys [OF d, of length] ks by simp
  also have "\<dots> = (\<Sum>c\<in>cids. length (filter (\<lambda>x. OfferLog.call_id x = c) offers))"
    by (rule sum.cong) (auto simp: group_by_call_map_of cids_def)
  finally have s: "sum_list ?rounds
                   = (\<Sum>c\<in>cids. length (filter (\<lambda>x. OfferLog.call_id x = c) offers))" .
  have e: "?rounds = [] \<longleftrightarrow> cids = {}"
    using ks by (metis (no_types, lifting) map_is_Nil_conv set_empty)
  have "avg_rounds (totals (metrics (Some offers) sf)) =
          (if ?rounds \<noteq> [] then of_nat (sum_list ?rounds) / of_nat (length ?rounds) else 0)"
    by (simp add: metrics_def Let_def read_log_def)
  with s len e show ?thesis
    by simp
qed

lemma metrics_read_log:
  "metrics offers_file summaries_file
     = metrics (Some (read_log offers_file)) (Some (read_log summaries_file))"
  by (simp add: metrics_def read_log_def)

lemma count_outcome_default:
  "length (filter (\<lambda>x. x = d) (map (\<lambda>s. str_or (f s) d) xs))
     = length (filter (\<lambda>s. f s = None \<or> f s = Some [] \<or> f s = Some d) xs)"
  by (induction xs) (auto simp: str_or_def split: option.splits)

lemma count_outcome_other:
  "k \<noteq> [] \<Longrightarrow> k \<noteq> d \<Longrightarrow>
   length (filter (\<lambda>x. x = k) (map (\<lambda>s. str_or (f s) d) xs))
     = length (filter (\<lambda>s. f s = Some k) xs)"
  by (induction xs) (auto simp: str_or_def split: option.splits)

text \<open>
  C4. The average is the mean, over the calls that have at least one offer (the
  non-empty call identifiers of the offers log), of the number of offers of the call,
  and 0 when there is no such call; every summary entry is counted once in each
  counter, an entry with no outcome under \<open>Other\<close> and one with no sentiment under
  \<open>Neutral\<close>; with an empty or missing offers log and one summary entry that has neither
  outcome nor sentiment the result has \<open>avg_rounds = 0\<close>, \<open>outcomes = {"Other": 1}\<close> and
  \<open>sentiments = {"Neutral": 1}\<close>.
\<close>

theorem metrics_aggregate:
  fixes offers_file :: "OfferLog list option" and summaries_file :: "CallSummary list option"
  defines "offers \<equiv> read_log offers_file"
      and "summaries \<equiv> read_log summaries_file"
      and "m \<equiv> metrics offers_file summaries_file"
  defines "cids \<equiv> {c \<in> OfferLog.call_id ` set offers. c \<noteq> []}"
  shows "avg_rounds (totals m) =
           (if cids = {} then 0
            else (\<Sum>c\<in>cids. of_nat (length (filter (\<lambda>x. OfferLog.call_id x = c) offers)))
                 / of_nat (card cids))
       \<and> (\<forall>c\<in>cids. 1 \<le> length (filter (\<lambda>x. OfferLog.call_id x = c) offers))
       \<and> counter_get (outcomes m) ''Other''
           = length (filter (\<lambda>s. outcome s = None \<or> outcome s = Some [] \<or> outcome s = Some ''Other'')
                       summaries)
       \<and> counter_get (sentiments m) ''Neutral''
           = length (filter (\<lambda>s. sentiment s = None \<or> sentiment s = Some []
                                  \<or> sentiment s = Some ''Neutral'') summaries)
       \<and> (\<forall>k. k \<noteq> [] \<and> k \<noteq> ''Other''
              \<longrightarrow> counter_get (outcomes m) k = length (filter (\<lambda>s. outcome s = Some k) summaries))
       \<and> (\<forall>k. k \<noteq> [] \<and> k \<noteq> ''Neutral''
              \<longrightarrow> counter_get (sentiments m) k
                    = length (filter (\<lambda>s. sentiment s = Some k) summaries))
       \<and> sum_list (map snd (outcomes m)) = length summaries
       \<and> sum_list (map snd (sentiments m)) = length summaries
       \<and> (offers_file = None \<longrightarrow> offers = [])
       \<and> (\<forall>s. offers = [] \<and> summaries = [s] \<and> outcome s = None \<and> sentiment s = None
              \<longrightarrow> avg_rounds (totals m) = 0 \<and> outcomes m = [(''Other'', 1)]
                  \<and> sentiments m = [(''Neutral'', 1)])"
proof -
  have m: "m = metrics (Some offers) (Some summaries)"
    unfolding m_def offers_def summaries_def by (rule metrics_read_log)
  have avg: "avg_rounds (totals m) =
           (if cids = {} then 0
            else (\<Sum>c\<in>cids. of_nat (length (filter (\<lambda>x. OfferLog.call_id x = c) offers)))
                 / of_nat (card cids))"
    unfolding m cids_def by (rule metrics_avg_rounds)
  have pos: "\<forall>c\<in>cids. 1 \<le> length (filter (\<lambda>x. OfferLog.call_id x = c) offers)"
    by (auto simp: cids_def Suc_le_eq length_greater_0_conv filter_empty_conv)
  have o: "outcomes m = Counter (map (\<lambda>s. str_or (outcome s) ''Other'') summaries)"
    and s: "sentiments m = Counter (map (\<lambda>s. str_or (sentiment s) ''Neutral'') summaries)"
    unfolding m by (simp_all add: metrics_def read_log_def Let_def)
  have c1: "counter_get (outcomes m) ''Other''
           = length (filter (\<lambda>s. outcome s = None \<or> outcome s = Some [] \<or> outcome s = Some ''Other'')
                       summaries)"
    unfolding o Counter_get by (rule count_outcome_default)
  have c2: "counter_get (sentiments m) ''Neutral''
           = length (filter (\<lambda>s. sentiment s = None \<or> sentiment s = Some []
                                  \<or> sentiment s = Some ''Neutral'') summaries)"
    unfolding s Counter_get by (rule count_outcome_default)
  have c3: "counter_get (outcomes m) k = length (filter (\<lambda>s. outcome s = Some k) summaries)"
    if "k \<noteq> []" "k \<noteq> ''Other''" for k
    unfolding o Counter_get using that by (rule count_outcome_other)
  have c4: "counter_get (sentiments m) k = length (filter (\<lambda>s. sentiment s = Some k) summaries)"
    if "k \<noteq> []" "k \<noteq> ''Neutral''" for k
    unfolding s Counter_get using that by (rule count_outcome_other)
  have t: "sum_list (map snd (outcomes m)) = length summaries"
          "sum_list (map snd (sentiments m)) = length summaries"
    unfolding o s by (simp_all add: Counter_def Counter_update_total)
  have n: "offers_file = None \<longrightarrow> offers = []"
    by (simp add: offers_def read_log_def)
  have e: "avg_rounds (totals m) = 0 \<and> outcomes m = [(''Other'', 1)]
                  \<and> sentiments m = [(''Neutral'', 1)]"
    if "offers = []" "summaries = [s]" "outcome s = None" "sentiment s = None" for s
    unfolding m using that by (simp add: metrics_def read_log_def Counter_def str_or_def Let_def)
  from avg pos c1 c2 c3 c4 t n e show ?thesis by blast
qed

theorem metrics_aggregate_witness:
  "metrics None
     (Some [\<lparr>call_id = ''c1'', carrier_mc = None, load_id = None, final_price = None,
             outcome = None, sentiment = None, offer_history = None,
             transcript_url = None\<rparr>])
   = \<lparr>totals = \<lparr>calls = 1, offers_logged = 0, avg_rounds = 0, accepted = 0, rejected = 0,
                 not_eligible = 0\<rparr>,
      outcomes = [(''Other'', 1)], sentiments = [(''Neutral'', 1)]\<rparr>
   \<and> avg_rounds (totals (metrics
        (Some [\<lparr>OfferLog.call_id = ''c1'', load_id = ''L-1001'', mc_number = ''12345'',
                carrier_offer = 0, round_n = 1, broker_offer = None, accepted = None\<rparr>,
               \<lparr>OfferLog.call_id = ''c1'', load_id = ''L-1001'', mc_number = ''12345'',
                carrier_offer = 0, round_n = 2, broker_offer = None, accepted = None\<rparr>,
               \<lparr>OfferLog.call_id = ''c2'', load_id = ''L-1002'', mc_number = ''777777'',
                carrier_offer = 0, round_n = 1, broker_offer = None, accepted = None\<rparr>])
        None)) = 3 / 2"
proof -
  let ?s = "\<lparr>call_id = ''c1'', carrier_mc = None, load_id = None, final_price = None,
             outcome = None, sentiment = None, offer_history = None,
             transcript_url = (None :: string option)\<rparr>"
  let ?o1 = "\<lparr>OfferLog.call_id = ''c1'', load_id = ''L-1001'', mc_number = ''12345'',
                carrier_offer = 0, round_n = 1, broker_offer = None, accepted = None\<rparr>"
  let ?o2 = "\<lparr>OfferLog.call_id = ''c1'', load_id = ''L-1001'', mc_number = ''12345'',
                carrier_offer = 0, round_n = 2, broker_offer = None, accepted = None\<rparr>"
  let ?o3 = "\<lparr>OfferLog.call_id = ''c2'', load_id = ''L-1002'', mc_number = ''777777'',
                carrier_offer = 0, round_n = 1, broker_offer = None, accepted = None\<rparr>"
  have rest: "calls (totals (metrics None (Some [?s]))) = 1"
     "offers_logged (totals (metrics None (Some [?s]))) = 0"
     "totals.accepted (totals (metrics None (Some [?s]))) = 0"
     "rejected (totals (metrics None (Some [?s]))) = 0"
     "not_eligible (totals (metrics None (Some [?s]))) = 0"
    by (simp_all add: metrics_def read_log_def Counter_def str_or_def counter_get_def Let_def)
  from metrics_aggregate [of None "Some [?s]"]
  have "avg_rounds (totals (metrics None (Some [?s]))) = 0
        \<and> outcomes (metrics None (Some [?s])) = [(''Other'', 1)]
        \<and> sentiments (metrics None (Some [?s])) = [(''Neutral'', 1)]"
    by (simp add: read_log_def)
  with rest have w1: "metrics None (Some [?s])
   = \<lparr>totals = \<lparr>calls = 1, offers_logged = 0, avg_rounds = 0, accepted = 0, rejected = 0,
                 not_eligible = 0\<rparr>,
      outcomes = [(''Other'', 1)], sentiments = [(''Neutral'', 1)]\<rparr>"
    by (cases "metrics None (Some [?s])", cases "totals (metrics None (Some [?s]))") simp
  have cs: "{c \<in> OfferLog.call_id ` set [?o1, ?o2, ?o3]. c \<noteq> []} = {''c1'', ''c2''}"
    by auto
  from metrics_aggregate [of "Some [?o1, ?o2, ?o3]" None]
  have w2: "avg_rounds (totals (metrics (Some [?o1, ?o2, ?o3]) None)) = 3 / 2"
    unfolding read_log_def option.case cs by simp
  from w1 w2 show ?thesis by simp
qed

section \<open>Properties of the load filter\<close>


lemma norm_val_typed: "str_or_false v \<Longrightarrow> \<exists>s. norm_val v = Inr s"
  by (cases v) (auto simp: norm_val_def py_or_def)

lemma norm_val_untyped: "\<not> str_or_false v \<Longrightarrow> norm_val v = Inl AttributeError"
  by (cases v) (auto simp: norm_val_def py_or_def)

lemma py_contains_typed:
  "container_or_false v \<Longrightarrow> \<exists>b. py_contains s (py_or v (PStr [])) = Inr b"
  by (cases v) (auto simp: py_or_def)

lemma py_contains_untyped:
  "\<not> container_or_false v \<Longrightarrow> py_contains s (py_or v (PStr [])) = Inl TypeError"
  by (cases v) (auto simp: py_or_def)

lemma row_match_typed:
  assumes "row_typed pickup_date r"
  shows "row_match B (norm_opt origin_city) (norm_opt origin_state) (norm_opt destination_city)
           (norm_opt destination_state) pickup_date (norm_opt equipment_type) r
         = Inr (matches B origin_city origin_state destination_city destination_state
                  pickup_date equipment_type r)"
proof -
  from assms obtain ro rd where
    ro: "norm_val (dict_get r ''origin'') = Inr ro" and
    rd: "norm_val (dict_get r ''destination'') = Inr rd"
    using norm_val_typed unfolding row_typed_def by blast
  show ?thesis
  proof (cases "pickup_date = None \<or> pickup_date = Some []")
    case True
    then show ?thesis
      by (auto simp: row_match_def matches_def ro rd field_norm_def crit_substring_def
          crit_equal_def crit_pickup_def Let_def)
  next
    case False
    then obtain pd where pd: "pickup_date = Some pd" "pd \<noteq> []"
      by (cases pickup_date) auto
    from False assms obtain b where
      b: "py_contains pd (py_or (dict_get r ''pickup_datetime'') (PStr [])) = Inr b"
      using py_contains_typed unfolding row_typed_def by blast
    show ?thesis
      by (auto simp: row_match_def matches_def ro rd field_norm_def crit_substring_def
          crit_equal_def crit_pickup_def Let_def pd b)
  qed
qed

lemma row_match_untyped:
  assumes "\<not> row_typed pickup_date r"
  shows "\<exists>e. row_match B oc os dc ds pickup_date et r = Inl e"
proof (cases "str_or_false (dict_get r ''origin'')")
  case False
  then show ?thesis by (simp add: row_match_def norm_val_untyped)
next
  case o: True
  then obtain ro where ro: "norm_val (dict_get r ''origin'') = Inr ro"
    using norm_val_typed by blast
  show ?thesis
  proof (cases "str_or_false (dict_get r ''destination'')")
    case False
    then show ?thesis by (simp add: row_match_def ro norm_val_untyped)
  next
    case True
    then obtain rd where rd: "norm_val (dict_get r ''destination'') = Inr rd"
      using norm_val_typed by blast
    from assms o True obtain pd where pd: "pickup_date = Some pd" "pd \<noteq> []"
      and c: "\<not> container_or_false (dict_get r ''pickup_datetime'')"
      by (cases pickup_date) (auto simp: row_typed_def)
    show ?thesis
      by (simp add: row_match_def ro rd pd py_contains_untyped [OF c] Let_def)
  qed
qed

lemma filter_loop_typed:
  assumes "store_typed pickup_date rs"
  shows "filter_loop B (norm_opt origin_city) (norm_opt origin_state) (norm_opt destination_city)
           (norm_opt destination_state) pickup_date (norm_opt equipment_type) rs out
         = Inr (out @ map (coerce_rate B)
                  (filter (matches B origin_city origin_state destination_city destination_state
                             pickup_date equipment_type) (dicts_of rs)))"
  using assms
proof (induction rs arbitrary: out)
  case Nil
  show ?case by (simp add: dicts_of_def List.map_filter_simps)
next
  case (Cons r rs)
  from Cons.prems obtain d where d: "r = PDict d" "row_typed pickup_date d"
    and rest: "store_typed pickup_date rs"
    by (cases r) (auto simp: store_typed_def)
  have ds: "dicts_of (r # rs) = d # dicts_of rs"
    by (simp add: dicts_of_def List.map_filter_simps d)
  show ?case
    unfolding ds
    by (simp add: d row_match_typed Cons.IH [OF rest])
qed

lemma filter_loop_untyped:
  assumes "\<not> store_typed pickup_date rs"
  shows "\<exists>e. filter_loop B oc os dc ds pickup_date et rs out = Inl e"
  using assms
proof (induction rs arbitrary: out)
  case Nil
  then show ?case by (simp add: store_typed_def)
next
  case (Cons r rs)
  show ?case
  proof (cases r)
    case (PDict d)
    show ?thesis
    proof (cases "row_typed pickup_date d")
      case False
      from row_match_untyped [OF this, of B oc os dc ds et] show ?thesis
        by (auto simp: PDict)
    next
      case True
      with Cons.prems PDict have "\<not> store_typed pickup_date rs"
        by (simp add: store_typed_def)
      from Cons.IH [OF this] show ?thesis
        by (auto simp: PDict split: sum.splits)
    qed
  qed simp_all
qed

lemma filter_loads_typed:
  assumes "store_typed pickup_date LOADS"
  shows "filter_loads B LOADS origin_city origin_state destination_city destination_state
           pickup_date equipment_type
         = Inr (take 3 (sort_key (rank_key B (norm_opt equipment_type))
                  (map (coerce_rate B)
                    (filter (matches B origin_city origin_state destination_city
                               destination_state pickup_date equipment_type)
                       (dicts_of LOADS)))))"
  by (simp add: filter_loads_def Let_def filter_loop_typed [OF assms])

lemma filter_loads_untyped:
  assumes "\<not> store_typed pickup_date LOADS"
  shows "\<exists>e. filter_loads B LOADS origin_city origin_state destination_city destination_state
           pickup_date equipment_type = Inl e"
proof -
  from filter_loop_untyped [OF assms] obtain e where
    "filter_loop B (norm_opt origin_city) (norm_opt origin_state) (norm_opt destination_city)
           (norm_opt destination_state) pickup_date (norm_opt equipment_type) LOADS [] = Inl e"
    by blast
  then show ?thesis by (simp add: filter_loads_def Let_def)
qed

lemma filter_loads_returns:
  assumes "filter_loads B LOADS origin_city origin_state destination_city destination_state
             pickup_date equipment_type = Inr res"
  shows "store_typed pickup_date LOADS"
proof (rule ccontr)
  assume "\<not> store_typed pickup_date LOADS"
  from filter_loads_untyped [OF this, of B origin_city origin_state destination_city
         destination_state equipment_type] assms
  show False by auto
qed

subsection \<open>Size of the result\<close>




subsection \<open>Blank criteria\<close>

lemma strip_blank:
  assumes "list_all is_space s"
  shows "strip s = []"
proof -
  from assms have d: "dropWhile is_space s = []"
    by (simp add: dropWhile_eq_Nil_conv list_all_iff)
  show ?thesis unfolding strip_def d by simp
qed

lemma norm_opt_blank: "list_all is_space s \<Longrightarrow> norm_opt (Some s) = norm_opt None"
  by (simp add: norm_opt_def norm_str_def strip_blank)

lemma row_match_pickup_empty:
  "row_match B oc os dc ds (Some []) et r = row_match B oc os dc ds None et r"
  by (simp add: row_match_def Let_def split: sum.splits)

lemma filter_loop_pickup_empty:
  "filter_loop B oc os dc ds (Some []) et rs out = filter_loop B oc os dc ds None et rs out"
  by (induction rs arbitrary: out)
     (simp_all add: row_match_pickup_empty split: pyval.splits sum.splits)

text \<open>
  C10. A criterion given as an empty or white-space-only string acts as an absent one:
  for each of \<open>origin_city\<close>, \<open>origin_state\<close>, \<open>destination_city\<close>, \<open>destination_state\<close> and
  \<open>equipment_type\<close>, the filter gives the same result (or the same exception) with the
  blank string as without the criterion, whatever the store and the other criteria; so
  \<open>equipment_type = "   "\<close> alone gives the result of the empty query. For \<open>pickup_date\<close>,
  which is not normalised, this holds of the empty string.
\<close>

theorem blank_criterion_is_absent:
  "(list_all is_space s \<longrightarrow>
      filter_loads B LOADS (Some s) origin_state destination_city destination_state
          pickup_date equipment_type
        = filter_loads B LOADS None origin_state destination_city destination_state
          pickup_date equipment_type
    \<and> filter_loads B LOADS origin_city (Some s) destination_city destination_state
          pickup_date equipment_type
        = filter_loads B LOADS origin_city None destination_city destination_state
          pickup_date equipment_type
    \<and> filter_loads B LOADS origin_city origin_state (Some s) destination_state
          pickup_date equipment_type
        = filter_loads B LOADS origin_city origin_state None destination_state
          pickup_date equipment_type
    \<and> filter_loads B LOADS origin_city origin_state destination_city (Some s)
          pickup_date equipment_type
        = filter_loads B LOADS origin_city origin_state destination_city None
          pickup_date equipment_type
    \<and> filter_loads B LOADS origin_city origin_state destination_city destination_state
          pickup_date (Some s)
        = filter_loads B LOADS origin_city origin_state destination_city destination_state
          pickup_date None
    \<and> filter_loads B LOADS None None None None None (Some s)
        = filter_loads B LOADS None None None None None None)
   \<and> filter_loads B LOADS origin_city origin_state destination_city destination_state
          (Some []) equipment_type
        = filter_loads B LOADS origin_city origin_state destination_city destination_state
          None equipment_type"
  by (simp add: filter_loads_def norm_opt_blank filter_loop_pickup_empty)

theorem blank_criterion_is_absent_witness:
  "list_all is_space ''   ''
   \<and> filter_loads example_builtins [PDict load_A, PDict load_B, PDict load_C, PDict load_D]
        None None None None None (Some ''   '') = Inr [load_B, load_A, load_C]
   \<and> filter_loads example_builtins [PDict load_A, PDict load_B, PDict load_C, PDict load_D]
        None None None None (Some ''   '') None = Inr []"
proof -
  let ?L = "[PDict load_A, PDict load_B, PDict load_C, PDict load_D]"
  have b: "list_all is_space ''   ''"
    by code_simp
  have e: "filter_loads example_builtins ?L None None None None None None
             = Inr [load_B, load_A, load_C]"
    by code_simp
  have p: "filter_loads example_builtins ?L None None None None (Some ''   '') None = Inr []"
    by code_simp
  from blank_criterion_is_absent [of "''   ''" example_builtins ?L None None None None None None]
    b e
  have "filter_loads example_builtins ?L None None None None None (Some ''   '')
          = Inr [load_B, load_A, load_C]"
    by simp
  with b p show ?thesis by blast
qed

subsection \<open>Ranking\<close>

lemma rank_key_sorted_pairs:
  fixes ks :: "(bool \<times> string) list"
  assumes "sorted ks" and "i < j" and "j < length ks"
  shows "(fst (ks ! i) \<longrightarrow> fst (ks ! j))
       \<and> (fst (ks ! i) = fst (ks ! j) \<longrightarrow> snd (ks ! i) \<le> snd (ks ! j))"
proof -
  from assms have "ks ! i \<le> ks ! j"
    by (simp add: sorted_iff_nth_mono)
  then show ?thesis
    by (cases "ks ! i"; cases "ks ! j") (auto simp: less_eq_prod_def)
qed

text \<open>
  C2. The result of the filter is in ascending order of the pair (equipment mismatch,
  pickup string): a record whose normalised equipment type equals the requested one is
  never after one whose equipment type differs, and of two records with the same
  equipment-match status the earlier has the smaller or equal pickup-timestamp string
  (a comparison of strings by code points). The order is that of a stable sort of the
  matching records: the result is the first three of a sequence sorted by that pair in
  which the records of equal pair keep their store order.
\<close>

theorem filter_ranked:
  fixes B :: builtins
  defines "mismatch \<equiv> \<lambda>et x. norm_str (py_str B (dict_get x ''equipment_type'')) \<noteq> norm_opt et"
      and "pickup \<equiv> \<lambda>x. py_str B (py_or (dict_get x ''pickup_datetime'') (PStr []))"
  assumes "filter_loads B LOADS origin_city origin_state destination_city destination_state
             pickup_date equipment_type = Inr out"
  shows "sorted (map (\<lambda>x. (mismatch equipment_type x, pickup x)) out)
       \<and> (\<forall>i j. i < j \<and> j < length out \<longrightarrow>
             (mismatch equipment_type (out ! i) \<longrightarrow> mismatch equipment_type (out ! j))
           \<and> (mismatch equipment_type (out ! i) = mismatch equipment_type (out ! j)
                \<longrightarrow> pickup (out ! i) \<le> pickup (out ! j)))
       \<and> (\<exists>ranked.
             out = take 3 ranked
           \<and> sorted (map (\<lambda>x. (mismatch equipment_type x, pickup x)) ranked)
           \<and> (\<forall>k. filter (\<lambda>x. (mismatch equipment_type x, pickup x) = k) ranked
                  = filter (\<lambda>x. (mismatch equipment_type x, pickup x) = k)
                      (map (coerce_rate B)
                        (filter (matches B origin_city origin_state destination_city
                                   destination_state pickup_date equipment_type)
                           (dicts_of LOADS)))))"
proof -
  let ?key = "\<lambda>x. (mismatch equipment_type x, pickup x)"
  let ?full = "map (coerce_rate B)
                 (filter (matches B origin_city origin_state destination_city
                            destination_state pickup_date equipment_type) (dicts_of LOADS))"
  have key: "?key = rank_key B (norm_opt equipment_type)"
    by (rule ext) (simp add: rank_key_def mismatch_def pickup_def)
  have typed: "store_typed pickup_date LOADS"
    using assms(3) by (rule filter_loads_returns)
  from filter_loads_typed [OF typed, of B origin_city origin_state destination_city
         destination_state equipment_type] assms(3)
  have out: "out = take 3 (sort_key ?key ?full)"
    by (simp add: key)
  have s: "sorted (map ?key (sort_key ?key ?full))"
    by (rule sorted_sort_key)
  have "map ?key out = take 3 (map ?key (sort_key ?key ?full))"
    unfolding out by (simp only: take_map)
  with s have so: "sorted (map ?key out)"
    by (simp only: sorted_wrt_take)
  have pairs: "(mismatch equipment_type (out ! i) \<longrightarrow> mismatch equipment_type (out ! j))
           \<and> (mismatch equipment_type (out ! i) = mismatch equipment_type (out ! j)
                \<longrightarrow> pickup (out ! i) \<le> pickup (out ! j))"
    if "i < j" "j < length out" for i j
    using rank_key_sorted_pairs [OF so, of i j] that by simp
  have st: "filter (\<lambda>x. ?key x = k) (sort_key ?key ?full) = filter (\<lambda>x. ?key x = k) ?full" for k
    by (rule sort_key_stable)
  from so pairs out s st show ?thesis
    by blast
qed

theorem filter_ranked_witness:
  "filter_loads example_builtins [PDict load_A, PDict load_B, PDict load_C, PDict load_D]
     None None None None None None = Inr [load_B, load_A, load_C]
   \<and> py_str example_builtins (py_or (dict_get load_B ''pickup_datetime'') (PStr []))
       \<le> py_str example_builtins (py_or (dict_get load_A ''pickup_datetime'') (PStr []))
   \<and> py_str example_builtins (py_or (dict_get load_A ''pickup_datetime'') (PStr []))
       \<le> py_str example_builtins (py_or (dict_get load_C ''pickup_datetime'') (PStr []))
   \<and> filter_loads example_builtins [PDict load_D, PDict load_C, PDict load_A] (Some ''chicago'')
     None None None None (Some ''DRY VAN'') = Inr [load_A, load_C, load_D]"
proof -
  let ?L = "[PDict load_A, PDict load_B, PDict load_C, PDict load_D]"
  have e: "filter_loads example_builtins ?L None None None None None None
             = Inr [load_B, load_A, load_C]"
    by code_simp
  have m: "norm_str (py_str example_builtins (dict_get load_B ''equipment_type'')) \<noteq> norm_opt None"
          "norm_str (py_str example_builtins (dict_get load_A ''equipment_type'')) \<noteq> norm_opt None"
          "norm_str (py_str example_builtins (dict_get load_C ''equipment_type'')) \<noteq> norm_opt None"
    by code_simp+
  note r = filter_ranked [OF e, THEN conjunct2, THEN conjunct1, rule_format]
  from r [of 0 1] m have a: "py_str example_builtins (py_or (dict_get load_B ''pickup_datetime'') (PStr []))
       \<le> py_str example_builtins (py_or (dict_get load_A ''pickup_datetime'') (PStr []))"
    by simp
  from r [of 1 2] m have b: "py_str example_builtins (py_or (dict_get load_A ''pickup_datetime'') (PStr []))
       \<le> py_str example_builtins (py_or (dict_get load_C ''pickup_datetime'') (PStr []))"
    by simp
  have f: "filter_loads example_builtins [PDict load_D, PDict load_C, PDict load_A]
             (Some ''chicago'') None None None None (Some ''DRY VAN'')
           = Inr [load_A, load_C, load_D]"
    by code_simp
  from e a b f show ?thesis by blast
qed

subsection \<open>Which records are returned\<close>

text \<open>
  C1, as stated, fails in two ways. With four matching records in the store the
  fourth in ranking order matches every (absent) criterion and is not in the result,
  which holds three records. And a \<open>pickup_date\<close> that differs from the timestamp of a
  record in letter case only matches it under the case-insensitive rule of the claim,
  while the code excludes the record.
\<close>

theorem filter_includes_counterexample:
  "matches_normalised example_builtins None None None None None None load_D
   \<and> filter_loads example_builtins [PDict load_A, PDict load_B, PDict load_C, PDict load_D]
        None None None None None None = Inr [load_B, load_A, load_C]
   \<and> coerce_rate example_builtins load_D \<notin> set [load_B, load_A, load_C]
   \<and> matches_normalised example_builtins None None None None (Some ''2025-09-08t08'') None load_A
   \<and> filter_loads example_builtins [PDict load_A] None None None None (Some ''2025-09-08t08'') None
       = Inr []"
  by code_simp

text \<open>
  C1, amended. Whenever the filter returns, every element of the store is a record,
  the result is the first three, in ranking order, of the rate-coerced copies of the
  records that satisfy every supplied criterion, each criterion under its own rule
  (\<open>matches\<close>, a conjunction of one predicate per criterion); hence every returned record
  is the copy of a record that satisfies all of them, and when at most three records
  satisfy them the result holds exactly their copies. The rule for \<open>pickup_date\<close> is the
  raw, case-sensitive one.
\<close>

theorem filter_includes_matching:
  assumes "filter_loads B LOADS origin_city origin_state destination_city destination_state
             pickup_date equipment_type = Inr out"
  shows "LOADS = map PDict (dicts_of LOADS)
       \<and> out = take 3 (sort_key (rank_key B (norm_opt equipment_type))
                 (map (coerce_rate B)
                   (filter (matches B origin_city origin_state destination_city
                              destination_state pickup_date equipment_type)
                      (dicts_of LOADS))))
       \<and> (\<forall>x\<in>set out. \<exists>r\<in>set (dicts_of LOADS). x = coerce_rate B r
             \<and> crit_substring origin_city (field_norm r ''origin'')
             \<and> crit_substring origin_state (field_norm r ''origin'')
             \<and> crit_substring destination_city (field_norm r ''destination'')
             \<and> crit_substring destination_state (field_norm r ''destination'')
             \<and> crit_equal equipment_type (norm_str (py_str B (dict_get r ''equipment_type'')))
             \<and> crit_pickup pickup_date (dict_get r ''pickup_datetime''))
       \<and> (length (filter (matches B origin_city origin_state destination_city
                            destination_state pickup_date equipment_type) (dicts_of LOADS)) \<le> 3
            \<longrightarrow> set out = coerce_rate B `
                   {r \<in> set (dicts_of LOADS).
                      matches B origin_city origin_state destination_city
                        destination_state pickup_date equipment_type r})"
proof -
  let ?m = "matches B origin_city origin_state destination_city destination_state
              pickup_date equipment_type"
  let ?full = "map (coerce_rate B) (filter ?m (dicts_of LOADS))"
  let ?ranked = "sort_key (rank_key B (norm_opt equipment_type)) ?full"
  have typed: "store_typed pickup_date LOADS"
    using assms by (rule filter_loads_returns)
  have all_dicts: "rs = map PDict (dicts_of rs)" if "store_typed pickup_date rs" for rs
    using that
    by (induction rs)
       (auto simp: store_typed_def dicts_of_def List.map_filter_simps split: pyval.splits)
  from filter_loads_typed [OF typed, of B origin_city origin_state destination_city
         destination_state equipment_type] assms
  have out: "out = take 3 ?ranked"
    by simp
  have sub: "set out \<subseteq> set ?full"
    unfolding out using set_take_subset [of 3 ?ranked] by simp
  have sound: "\<exists>r\<in>set (dicts_of LOADS). x = coerce_rate B r
             \<and> crit_substring origin_city (field_norm r ''origin'')
             \<and> crit_substring origin_state (field_norm r ''origin'')
             \<and> crit_substring destination_city (field_norm r ''destination'')
             \<and> crit_substring destination_state (field_norm r ''destination'')
             \<and> crit_equal equipment_type (norm_str (py_str B (dict_get r ''equipment_type'')))
             \<and> crit_pickup pickup_date (dict_get r ''pickup_datetime'')"
    if "x \<in> set out" for x
  proof -
    from that sub obtain r where "r \<in> set (dicts_of LOADS)" "?m r" "x = coerce_rate B r"
      by auto
    then show ?thesis
      unfolding matches_def by blast
  qed
  have complete: "set out = coerce_rate B ` {r \<in> set (dicts_of LOADS). ?m r}"
    if "length (filter ?m (dicts_of LOADS)) \<le> 3"
  proof -
    from that have "length ?ranked \<le> 3" by simp
    then have "out = ?ranked" unfolding out by simp
    then show ?thesis by auto
  qed
  from all_dicts [OF typed] out sound complete show ?thesis
    by blast
qed

theorem filter_includes_matching_witness:
  "filter_loads example_builtins [PDict load_A, PDict load_B, PDict load_C]
     (Some '' Chicago'') (Some ''il'') None None (Some ''2025-09-0'') (Some ''dry VAN'')
     = Inr [load_A, load_C]
   \<and> set [load_A, load_C]
       = coerce_rate example_builtins `
           {r \<in> set [load_A, load_B, load_C].
              matches example_builtins (Some '' Chicago'') (Some ''il'') None None
                (Some ''2025-09-0'') (Some ''dry VAN'') r}"
proof -
  let ?L = "[PDict load_A, PDict load_B, PDict load_C]"
  have e: "filter_loads example_builtins ?L
     (Some '' Chicago'') (Some ''il'') None None (Some ''2025-09-0'') (Some ''dry VAN'')
     = Inr [load_A, load_C]"
    by code_simp
  have d: "dicts_of ?L = [load_A, load_B, load_C]"
    by code_simp
  have l: "length (filter (matches example_builtins (Some '' Chicago'') (Some ''il'') None None
                (Some ''2025-09-0'') (Some ''dry VAN'')) (dicts_of ?L)) \<le> 3"
    unfolding d by simp
  have "set [load_A, load_C]
       = coerce_rate example_builtins `
           {r \<in> set (dicts_of ?L).
              matches example_builtins (Some '' Chicago'') (Some ''il'') None None
                (Some ''2025-09-0'') (Some ''dry VAN'') r}"
    by (rule filter_includes_matching
               [OF e, THEN conjunct2, THEN conjunct2, THEN conjunct2, THEN mp, OF l])
  then have "set [load_A, load_C]
       = coerce_rate example_builtins `
           {r \<in> set [load_A, load_B, load_C].
              matches example_builtins (Some '' Chicago'') (Some ''il'') None None
                (Some ''2025-09-0'') (Some ''dry VAN'') r}"
    unfolding d .
  with e show ?thesis by blast
qed

section \<open>The filter leaves the store alone\<close>

lemma copy_and_coerce:
  "(let (r2, m1) = alloc m (PDict d);
        m2 = (case py_float B (dict_get (obj_dict m1 r2) ''loadboard_rate'') of
                Inl e \<Rightarrow> m1
              | Inr f \<Rightarrow> set_item m1 r2 ''loadboard_rate'' (PFloat f))
    in F r2 m2)
   = F (length (objects m)) (m\<lparr>objects := objects m @ [PDict (coerce_rate B d)]\<rparr>)"
  by (cases "py_float B (dict_get d ''loadboard_rate'')")
     (simp_all add: alloc_def obj_dict_def deref_def set_item_def coerce_rate_def Let_def)

lemma filter_loop_mem_step:
  "filter_loop_mem B oc os dc ds pickup_date et (r # rs) out m =
    (case deref m r of
       Some (PDict d) \<Rightarrow>
         (case row_match B oc os dc ds pickup_date et d of
            Inl e \<Rightarrow> (Inl e, m)
          | Inr match \<Rightarrow>
              if match then
                filter_loop_mem B oc os dc ds pickup_date et rs (out @ [length (objects m)])
                  (m\<lparr>objects := objects m @ [PDict (coerce_rate B d)]\<rparr>)
              else filter_loop_mem B oc os dc ds pickup_date et rs out m)
     | _ \<Rightarrow> (Inl AttributeError, m))"
  unfolding filter_loop_mem.simps copy_and_coerce ..

lemma filter_loop_mem_frame:
  assumes "filter_loop_mem B oc os dc ds pickup_date et rs out m = (res, m')"
  shows "loads m' = loads m \<and> (\<exists>new. objects m' = objects m @ new)"
  using assms
proof (induction rs arbitrary: out m)
  case Nil
  then show ?case by simp
next
  case (Cons r rs)
  show ?case
  proof (cases "\<exists>d. deref m r = Some (PDict d)")
    case False
    with Cons.prems have "m' = m"
      unfolding filter_loop_mem_step by (auto split: option.splits pyval.splits)
    then show ?thesis by simp
  next
    case True
    then obtain d where d: "deref m r = Some (PDict d)" by blast
    show ?thesis
    proof (cases "row_match B oc os dc ds pickup_date et d")
      case (Inl e)
      with Cons.prems d have "m' = m"
        unfolding filter_loop_mem_step by simp
      then show ?thesis by simp
    next
      case (Inr match)
      show ?thesis
      proof (cases match)
        case False
        with Cons.prems d Inr
        have "filter_loop_mem B oc os dc ds pickup_date et rs out m = (res, m')"
          unfolding filter_loop_mem_step by simp
        from Cons.IH [OF this] show ?thesis .
      next
        case True
        let ?m2 = "m\<lparr>objects := objects m @ [PDict (coerce_rate B d)]\<rparr>"
        from Cons.prems d Inr True
        have "filter_loop_mem B oc os dc ds pickup_date et rs (out @ [length (objects m)]) ?m2
                = (res, m')"
          unfolding filter_loop_mem_step by simp
        from Cons.IH [OF this] show ?thesis by auto
      qed
    qed
  qed
qed

lemma obj_dict_append:
  "a < length (objects m) \<Longrightarrow> obj_dict (m\<lparr>objects := objects m @ new\<rparr>) a = obj_dict m a"
  by (simp add: obj_dict_def deref_def nth_append)

lemma obj_dict_new:
  "obj_dict (m\<lparr>objects := objects m @ [PDict d]\<rparr>) (length (objects m)) = d"
  by (simp add: obj_dict_def deref_def)

lemma filter_loop_mem_pure:
  assumes "filter_loop_mem B oc os dc ds pickup_date et rs out m = (res, m')"
    and "\<forall>a\<in>set rs. a < length (objects m)" and "\<forall>a\<in>set out. a < length (objects m)"
  shows "(\<forall>e. res = Inl e \<longrightarrow>
            filter_loop B oc os dc ds pickup_date et (map ((!) (objects m)) rs)
              (map (obj_dict m) out) = Inl e)
       \<and> (\<forall>out'. res = Inr out' \<longrightarrow>
            filter_loop B oc os dc ds pickup_date et (map ((!) (objects m)) rs)
              (map (obj_dict m) out) = Inr (map (obj_dict m') out')
          \<and> (\<forall>a\<in>set out'. a \<in> set out \<or> length (objects m) \<le> a)
          \<and> (\<forall>a\<in>set out'. a < length (objects m')))"
  using assms
proof (induction rs arbitrary: out m)
  case Nil
  then show ?case by auto
next
  case (Cons r rs)
  from Cons.prems(2) have r: "deref m r = Some (objects m ! r)"
    by (simp add: deref_def)
  show ?case
  proof (cases "objects m ! r")
    case (PDict d)
    show ?thesis
    proof (cases "row_match B oc os dc ds pickup_date et d")
      case (Inl e)
      with Cons.prems(1) r PDict show ?thesis
        unfolding filter_loop_mem_step by auto
    next
      case (Inr match)
      show ?thesis
      proof (cases match)
        case False
        with Cons.prems(1) r PDict Inr
        have "filter_loop_mem B oc os dc ds pickup_date et rs out m = (res, m')"
          unfolding filter_loop_mem_step by simp
        from Cons.IH [OF this] Cons.prems(2,3) PDict Inr False show ?thesis
          by simp
      next
        case True
        let ?a = "length (objects m)"
        let ?m2 = "m\<lparr>objects := objects m @ [PDict (coerce_rate B d)]\<rparr>"
        from Cons.prems(1) r PDict Inr True
        have run: "filter_loop_mem B oc os dc ds pickup_date et rs (out @ [?a]) ?m2 = (res, m')"
          unfolding filter_loop_mem_step by simp
        have p2: "\<forall>a\<in>set rs. a < length (objects ?m2)"
          using Cons.prems(2) by auto
        have p3: "\<forall>a\<in>set (out @ [?a]). a < length (objects ?m2)"
          using Cons.prems(3) by auto
        have e1: "map ((!) (objects ?m2)) rs = map ((!) (objects m)) rs"
          using Cons.prems(2) by (simp add: nth_append)
        have e2: "map (obj_dict ?m2) (out @ [?a]) = map (obj_dict m) out @ [coerce_rate B d]"
          using Cons.prems(3) by (simp add: obj_dict_append obj_dict_new)
        from Cons.IH [OF run p2 p3]
        show ?thesis
          unfolding e1 e2 using PDict Inr True by (auto; force)
      qed
    qed
  qed (use Cons.prems(1) r in \<open>auto simp: filter_loop_mem_step\<close>)
qed

lemma map_insort_key:
  "map f (insort_key (\<lambda>x. k (f x)) x xs) = insort_key k (f x) (map f xs)"
  by (induction xs) simp_all

lemma map_sort_key: "map f (sort_key (\<lambda>x. k (f x)) xs) = sort_key k (map f xs)"
  by (induction xs) (simp_all add: map_insort_key)

text \<open>
  C9. Whatever the criteria, and whether it returns or raises, the filter leaves the
  list \<^verbatim>\<open>LOADS\<close> as it was and every object that existed before the call unchanged:
  the memory after the call is the memory before it followed by new objects. When the
  elements of \<^verbatim>\<open>LOADS\<close> are objects of the memory, the records returned are new
  objects, none of them an element of \<^verbatim>\<open>LOADS\<close> (they are the copies made by
  \<^verbatim>\<open>dict(r)\<close>, so the coerced rate is written to a copy), and their contents are the
  result of the filter computed on the values of the store.
\<close>

theorem filter_preserves_store:
  assumes "filter_loads_mem B m origin_city origin_state destination_city destination_state
             pickup_date equipment_type = (res, m')"
  shows "loads m' = loads m
       \<and> (\<exists>new. objects m' = objects m @ new)
       \<and> (\<forall>a < length (objects m). deref m' a = deref m a)
       \<and> ((\<forall>a\<in>set (loads m). a < length (objects m)) \<longrightarrow>
            (\<forall>a\<in>set (loads m). deref m' a = deref m a)
          \<and> (\<forall>out. res = Inr out \<longrightarrow>
                (\<forall>a\<in>set out. length (objects m) \<le> a \<and> a < length (objects m')
                              \<and> a \<notin> set (loads m))
              \<and> filter_loads B (map ((!) (objects m)) (loads m)) origin_city origin_state
                   destination_city destination_state pickup_date equipment_type
                 = Inr (map (obj_dict m') out))
          \<and> (\<forall>e. res = Inl e \<longrightarrow>
                filter_loads B (map ((!) (objects m)) (loads m)) origin_city origin_state
                   destination_city destination_state pickup_date equipment_type = Inl e))"
proof -
  let ?et = "norm_opt equipment_type"
  let ?loop = "filter_loop_mem B (norm_opt origin_city) (norm_opt origin_state)
      (norm_opt destination_city) (norm_opt destination_state) pickup_date ?et (loads m) [] m"
  obtain r0 m0 where l: "?loop = (r0, m0)"
    by (cases ?loop)
  from assms l have m0: "m0 = m'"
    by (auto simp: filter_loads_mem_def Let_def split: sum.splits)
  from assms l have res: "res = (case r0 of Inl e \<Rightarrow> Inl e
      | Inr out \<Rightarrow> Inr (take 3 (sort_key (\<lambda>x. rank_key B ?et (obj_dict m' x)) out)))"
    by (auto simp: filter_loads_mem_def Let_def split: sum.splits)
  note l' = l [unfolded m0]
  from filter_loop_mem_frame [OF l'] have f: "loads m' = loads m"
    and "\<exists>new. objects m' = objects m @ new"
    by simp_all
  then obtain new where n: "objects m' = objects m @ new"
    by blast
  have d: "deref m' a = deref m a" if "a < length (objects m)" for a
    using that by (simp add: deref_def n nth_append)
  have rest: "(\<forall>a\<in>set (loads m). deref m' a = deref m a)
          \<and> (\<forall>out. res = Inr out \<longrightarrow>
                (\<forall>a\<in>set out. length (objects m) \<le> a \<and> a < length (objects m')
                              \<and> a \<notin> set (loads m))
              \<and> filter_loads B (map ((!) (objects m)) (loads m)) origin_city origin_state
                   destination_city destination_state pickup_date equipment_type
                 = Inr (map (obj_dict m') out))
          \<and> (\<forall>e. res = Inl e \<longrightarrow>
                filter_loads B (map ((!) (objects m)) (loads m)) origin_city origin_state
                   destination_city destination_state pickup_date equipment_type = Inl e)"
    if v: "\<forall>a\<in>set (loads m). a < length (objects m)"
  proof -
    note p = filter_loop_mem_pure [OF l' v, simplified]
    have a: "\<forall>a\<in>set (loads m). deref m' a = deref m a"
      using v d by blast
    have b: "(\<forall>a\<in>set out. length (objects m) \<le> a \<and> a < length (objects m')
                              \<and> a \<notin> set (loads m))
              \<and> filter_loads B (map ((!) (objects m)) (loads m)) origin_city origin_state
                   destination_city destination_state pickup_date equipment_type
                 = Inr (map (obj_dict m') out)"
      if o: "res = Inr out" for out
    proof -
      from o res obtain out0 where r0: "r0 = Inr out0"
        and out: "out = take 3 (sort_key (\<lambda>x. rank_key B ?et (obj_dict m' x)) out0)"
        by (cases r0) auto
      from p r0 have pl: "filter_loop B (norm_opt origin_city) (norm_opt origin_state)
          (norm_opt destination_city) (norm_opt destination_state) pickup_date ?et
          (map ((!) (objects m)) (loads m)) [] = Inr (map (obj_dict m') out0)"
        and fresh: "\<forall>a\<in>set out0. length (objects m) \<le> a"
        and inb: "\<forall>a\<in>set out0. a < length (objects m')"
        by simp_all
      have sub: "set out \<subseteq> set out0"
        unfolding out
        using set_take_subset [of 3 "sort_key (\<lambda>x. rank_key B ?et (obj_dict m' x)) out0"]
        by simp
      have fr: "\<forall>a\<in>set out. length (objects m) \<le> a \<and> a < length (objects m')
                              \<and> a \<notin> set (loads m)"
        using sub fresh inb v by fastforce
      have "map (obj_dict m') out
              = take 3 (map (obj_dict m')
                  (sort_key (\<lambda>x. rank_key B ?et (obj_dict m' x)) out0))"
        unfolding out by (rule take_map [symmetric])
      also have "map (obj_dict m') (sort_key (\<lambda>x. rank_key B ?et (obj_dict m' x)) out0)
                   = sort_key (rank_key B ?et) (map (obj_dict m') out0)"
        by (rule map_sort_key)
      finally have "map (obj_dict m') out
              = take 3 (sort_key (rank_key B ?et) (map (obj_dict m') out0))" .
      with pl have "filter_loads B (map ((!) (objects m)) (loads m)) origin_city origin_state
                   destination_city destination_state pickup_date equipment_type
                 = Inr (map (obj_dict m') out)"
        by (simp add: filter_loads_def Let_def)
      with fr show ?thesis by blast
    qed
    have c: "filter_loads B (map ((!) (objects m)) (loads m)) origin_city origin_state
                   destination_city destination_state pickup_date equipment_type = Inl e"
      if o: "res = Inl e" for e
    proof -
      from o res have "r0 = Inl e"
        by (cases r0) auto
      with p show ?thesis
        by (simp add: filter_loads_def Let_def)
    qed
    from a b c show ?thesis by blast
  qed
  from f n d rest show ?thesis
    by blast
qed

theorem filter_preserves_store_witness:
  "filter_loads_mem
     \<lparr>float_of_int = (\<lambda>i. if i = 900 then Inr 0x408C200000000000 else Inl OverflowError),
      float_of_str = (\<lambda>s. Inl ValueError), repr_of = (\<lambda>v. [])\<rparr>
     \<lparr>objects = [PDict [(''load_id'', PStr ''L-1002''), (''loadboard_rate'', PInt 900)]],
      loads = [0]\<rparr>
     None None None None None None
   = (Inr [1],
      \<lparr>objects = [PDict [(''load_id'', PStr ''L-1002''), (''loadboard_rate'', PInt 900)],
                  PDict [(''load_id'', PStr ''L-1002''),
                         (''loadboard_rate'', PFloat 0x408C200000000000)]],
       loads = [0]\<rparr>)
   \<and> deref
      \<lparr>objects = [PDict [(''load_id'', PStr ''L-1002''), (''loadboard_rate'', PInt 900)],
                  PDict [(''load_id'', PStr ''L-1002''),
                         (''loadboard_rate'', PFloat 0x408C200000000000)]],
       loads = [0]\<rparr> 0
     = Some (PDict [(''load_id'', PStr ''L-1002''), (''loadboard_rate'', PInt 900)])"
proof -
  let ?B = "\<lparr>float_of_int = (\<lambda>i. if i = 900 then Inr 0x408C200000000000 else Inl OverflowError),
      float_of_str = (\<lambda>s::string. Inl ValueError), repr_of = (\<lambda>v::pyval. [])\<rparr>"
  let ?r = "PDict [(''load_id'', PStr ''L-1002''), (''loadboard_rate'', PInt 900)]"
  let ?r2 = "PDict [(''load_id'', PStr ''L-1002''),
                    (''loadboard_rate'', PFloat 0x408C200000000000)]"
  let ?m = "\<lparr>objects = [?r], loads = [0]\<rparr>"
  let ?m' = "\<lparr>objects = [?r, ?r2], loads = [0]\<rparr>"
  have e: "filter_loads_mem ?B ?m None None None None None None = (Inr [1], ?m')"
    by code_simp
  have d: "deref ?m 0 = Some ?r"
    by (simp add: deref_def)
  from filter_preserves_store [OF e, THEN conjunct2, THEN conjunct2, THEN conjunct1,
         rule_format, of 0] d
  have "deref ?m' 0 = Some ?r"
    by simp
  with e show ?thesis by blast
qed

section \<open>Event log files: writing and reading back\<close>

subsection \<open>Numbers\<close>

declare digits.simps [simp del]























subsection \<open>Strings\<close>












subsection \<open>Values\<close>


















subsection \<open>Lines\<close>

lemma printable_no_break:
  "32 \<le> (of_char x :: nat) \<Longrightarrow> x \<noteq> LF \<and> x \<noteq> CR"
  by auto























subsection \<open>The round trip\<close>





end
